theory Spec2Isabelle
  imports Main
begin

section \<open>The sentence translator of TS.py\<close>

text \<open>
  The class \<^verbatim>\<open>SentenceTranslator\<close> keeps its configuration, its variable list, its id
  table and seven occurrence tables in class attributes. The embedding keeps them in one
  record that is passed to every operation. Python integers are \<open>int\<close>; a symbol is a
  string and a sentence a list of symbols (the demo driver splits every line on commas).
  The dictionaries that the code iterates over are association lists in insertion order,
  as \<^verbatim>\<open>dict.items()\<close> yields them; the id table is only looked up and is a map.
\<close>

subsection \<open>Formulas\<close>

text \<open>
  The z3 terms that the translator builds: \<^verbatim>\<open>BoolVal(b)\<close>, the variable
  \<^verbatim>\<open>Bool("A_i")\<close> (kept by its number \<open>i\<close>), \<^verbatim>\<open>Not\<close> (here \<open>NotF\<close>), the n-ary \<^verbatim>\<open>And\<close> and
  \<^verbatim>\<open>Or\<close>, and \<^verbatim>\<open>Implies\<close>.
\<close>

datatype formula =
    BoolVal bool
  | BoolVar int
  | NotF formula
  | And "formula list"
  | Or "formula list"
  | Implies formula formula

fun eval :: "(int \<Rightarrow> bool) \<Rightarrow> formula \<Rightarrow> bool" where
  "eval \<sigma> (BoolVal b) = b"
| "eval \<sigma> (BoolVar i) = \<sigma> i"
| "eval \<sigma> (NotF f) = (\<not> eval \<sigma> f)"
| "eval \<sigma> (And fs) = list_all (eval \<sigma>) fs"
| "eval \<sigma> (Or fs) = list_ex (eval \<sigma>) fs"
| "eval \<sigma> (Implies f g) = (eval \<sigma> f \<longrightarrow> eval \<sigma> g)"

subsection \<open>Exceptions and Python indexing\<close>

datatype error = KeyError | IndexError | ZeroDivisionError | Z3Exception

text \<open>\<^verbatim>\<open>xs[i]\<close>: a negative index counts from the end, an index out of range raises.\<close>

definition py_get :: "'a list \<Rightarrow> int \<Rightarrow> error + 'a" where
  "py_get xs i =
     (if 0 \<le> i \<and> i < int (length xs) then Inr (xs ! nat i)
      else if i < 0 \<and> - int (length xs) \<le> i then Inr (xs ! nat (int (length xs) + i))
      else Inl IndexError)"

text \<open>A list comprehension whose element may raise: the first exception ends it.\<close>

fun map_err :: "('a \<Rightarrow> error + 'b) \<Rightarrow> 'a list \<Rightarrow> error + 'b list" where
  "map_err f [] = Inr []"
| "map_err f (x # xs) =
     (case f x of
        Inl e \<Rightarrow> Inl e
      | Inr y \<Rightarrow> (case map_err f xs of Inl e \<Rightarrow> Inl e | Inr ys \<Rightarrow> Inr (y # ys)))"

subsection \<open>The class state\<close>

record translator =
  alphabet :: "string list"
  k :: int
  var_list :: "formula list"
  id_table :: "string \<rightharpoonup> int"
  src_to_alphabet1_table :: "(int \<times> int) list"
  alphabet1_to_alphabet_table :: "((int \<times> int) \<times> int) list"
  alphabet_to_alphabet_table :: "((int \<times> int) \<times> int) list"
  alphabet_to_snk_table :: "(int \<times> int) list"
  alphabet1_to_alphabet_imply_table :: "((int \<times> int \<times> int) \<times> int) list"
  alphabet_to_alphabet_imply_table :: "((int \<times> int \<times> int) \<times> int) list"
  alphabet_to_snk_imply_table :: "((int \<times> int) \<times> int) list"

text \<open>
  \<^verbatim>\<open>get_size\<close> and \<^verbatim>\<open>get_number\<close> cache their value on first use; \<^verbatim>\<open>global_init\<close>
  calls both, so afterwards they are the functions of the configuration below.
\<close>

definition get_size :: "translator \<Rightarrow> int" where
  "get_size st = int (length (alphabet st))"

definition get_number :: "translator \<Rightarrow> int" where
  "get_number st = k st * get_size st + 1"

subsection \<open>Addressing\<close>

definition quadruple_to_idx :: "translator \<Rightarrow> int \<Rightarrow> int \<Rightarrow> int \<Rightarrow> int \<Rightarrow> int" where
  "quadruple_to_idx st id1 k1 id2 k2 =
     (let size = get_size st in
      if id1 = 0 \<and> id2 = size + 1 then get_number st
      else if id1 = 0 then (id2 - 1) * k st + k2
      else if id2 = size + 1 then ((id1 - 1) * k st + k1 + 1) * get_number st
      else ((id1 - 1) * k st + k1) * get_number st + (id2 - 1) * k st + k2)"

text \<open>
  \<^verbatim>\<open>divmod\<close> rounds towards minus infinity, as \<open>div\<close> and \<open>mod\<close> on \<open>int\<close> do, and
  raises on a zero divisor.
\<close>

definition py_divmod :: "int \<Rightarrow> int \<Rightarrow> error + int \<times> int" where
  "py_divmod a b = (if b = 0 then Inl ZeroDivisionError else Inr (a div b, a mod b))"

definition idx_to_quadruple :: "translator \<Rightarrow> int \<Rightarrow> error + int \<times> int \<times> int \<times> int" where
  "idx_to_quadruple st idx =
     (case py_divmod idx (get_number st) of
        Inl e \<Rightarrow> Inl e
      | Inr (row, col) \<Rightarrow>
          (case py_divmod (row - 1) (k st) of
             Inl e \<Rightarrow> Inl e
           | Inr (id1, k1) \<Rightarrow>
               (case py_divmod (col - 1) (k st) of
                  Inl e \<Rightarrow> Inl e
                | Inr (id2, k2) \<Rightarrow> Inr (id1 + 1, k1 + 1, id2 + 1, k2 + 1))))"

text \<open>
  The body of \<^verbatim>\<open>_quadruple_to_idx\<close> has no \<^verbatim>\<open>raise\<close> and only adds and multiplies
  integers, so a call with integer arguments always returns: its outcome is the value.
\<close>

definition quadruple_to_idx_outcome ::
  "translator \<Rightarrow> int \<Rightarrow> int \<Rightarrow> int \<Rightarrow> int \<Rightarrow> error + int" where
  "quadruple_to_idx_outcome st id1 k1 id2 k2 = Inr (quadruple_to_idx st id1 k1 id2 k2)"

subsection \<open>Initialisation\<close>

text \<open>
  \<^verbatim>\<open>gen_id_table\<close>: \<^verbatim>\<open>src\<close> and \<^verbatim>\<open>snk\<close> first, then the symbols numbered from 1; a
  later assignment to the same key wins.
\<close>

fun enumerate_from :: "int \<Rightarrow> 'a list \<Rightarrow> (int \<times> 'a) list" where
  "enumerate_from n [] = []"
| "enumerate_from n (x # xs) = (n, x) # enumerate_from (n + 1) xs"

definition gen_id_table :: "translator \<Rightarrow> translator" where
  "gen_id_table st =
     st\<lparr>id_table :=
          foldl (\<lambda>m (idx, ch). m(ch \<mapsto> idx))
            ((id_table st)(''src'' \<mapsto> 0, ''snk'' \<mapsto> get_size st + 1))
            (enumerate_from 1 (alphabet st))\<rparr>"

text \<open>\<^verbatim>\<open>gen_var_list\<close>: the constant true, the variables \<open>A_1 .. A_(N*N)\<close>, the constant false.\<close>

definition gen_var_list :: "translator \<Rightarrow> translator" where
  "gen_var_list st =
     (let number = get_number st; number = number * number + 1
      in st\<lparr>var_list := var_list st @ [BoolVal True] @ map BoolVar [1..number - 1]
                                     @ [BoolVal False]\<rparr>)"

text \<open>The class attributes as the class body sets them, with the configuration given.\<close>

definition class_state :: "string list \<Rightarrow> int \<Rightarrow> translator" where
  "class_state a n =
     \<lparr>alphabet = a, k = n, var_list = [], id_table = Map.empty,
      src_to_alphabet1_table = [], alphabet1_to_alphabet_table = [],
      alphabet_to_alphabet_table = [], alphabet_to_snk_table = [],
      alphabet1_to_alphabet_imply_table = [], alphabet_to_alphabet_imply_table = [],
      alphabet_to_snk_imply_table = []\<rparr>"

definition global_init :: "string list \<Rightarrow> int \<Rightarrow> translator" where
  "global_init a n = gen_var_list (gen_id_table (class_state a n))"

subsection \<open>Sequencing code that may raise\<close>

definition bind_err :: "error + 'a \<Rightarrow> ('a \<Rightarrow> error + 'b) \<Rightarrow> error + 'b" where
  "bind_err r f = (case r of Inl e \<Rightarrow> Inl e | Inr x \<Rightarrow> f x)"

text \<open>\<^verbatim>\<open>id_table[ch]\<close> raises on a symbol that is not a key.\<close>

definition lookup_id :: "translator \<Rightarrow> string \<Rightarrow> error + int" where
  "lookup_id st ch = (case id_table st ch of None \<Rightarrow> Inl KeyError | Some i \<Rightarrow> Inr i)"

text \<open>\<^verbatim>\<open>id_table[sentence[i]]\<close>\<close>

definition symbol_id :: "translator \<Rightarrow> string list \<Rightarrow> int \<Rightarrow> error + int" where
  "symbol_id st sentence i = bind_err (py_get sentence i) (lookup_id st)"

subsection \<open>Conjunctions and disjunctions of variables\<close>

definition get_and_formula :: "translator \<Rightarrow> int list \<Rightarrow> bool \<Rightarrow> error + formula" where
  "get_and_formula st idx_list ext =
     (if length idx_list = 0 then py_get (var_list st) 0
      else bind_err (map_err (py_get (var_list st)) idx_list)
             (\<lambda>vs. Inr (And (if ext then vs else map NotF vs))))"

definition get_or_formula :: "translator \<Rightarrow> int list \<Rightarrow> bool \<Rightarrow> error + formula" where
  "get_or_formula st idx_list ext =
     (if length idx_list = 0 then py_get (var_list st) 0
      else bind_err (map_err (py_get (var_list st)) idx_list)
             (\<lambda>vs. Inr (Or (if ext then vs else map NotF vs))))"

subsection \<open>Index lists\<close>

definition get_alphabet_to_alphabet_list :: "translator \<Rightarrow> int \<Rightarrow> int \<Rightarrow> bool \<Rightarrow> int list" where
  "get_alphabet_to_alphabet_list st id1 id2 ext =
     (if ext then map (\<lambda>k2. quadruple_to_idx st id1 1 id2 k2) [1..k st]
      else if id1 = 0 then [quadruple_to_idx st 0 0 id2 1]
      else if id2 = get_size st + 1 then map (\<lambda>k1. quadruple_to_idx st id1 k1 id2 0) [1..k st]
      else concat (map (\<lambda>k1. map (\<lambda>k2. quadruple_to_idx st id1 k1 id2 k2) [1..k st])
                    [1..k st]))"

definition get_alphabet_to_alphabet_imply_list ::
  "translator \<Rightarrow> int \<Rightarrow> int \<Rightarrow> int \<Rightarrow> bool \<Rightarrow> (int list \<times> int list) list" where
  "get_alphabet_to_alphabet_imply_list st id1 id2 id3 ext =
     (if ext then
        map (\<lambda>k2. ([quadruple_to_idx st id1 1 id2 k2],
                   map (\<lambda>k3. quadruple_to_idx st id2 k2 id3 k3) [1..k st])) [1..k st]
      else if id3 = get_size st + 1 then
        map (\<lambda>k2. (if id3 = 3 then [quadruple_to_idx st id1 1 id2 k2]
                    else map (\<lambda>k1. quadruple_to_idx st id1 k1 id2 k2) [1..k st],
                   [quadruple_to_idx st id2 k2 id3 0])) [1..k st]
      else
        map (\<lambda>k2. (map (\<lambda>k1. quadruple_to_idx st id1 k1 id2 k2) [1..k st],
                   map (\<lambda>k3. quadruple_to_idx st id2 k2 id3 k3) [1..k st])) [1..k st])"

text \<open>\<^verbatim>\<open>Implies(_get_or_formula(pre), _get_or_formula(post))\<close> for one pair of index lists.\<close>

definition imply_formula :: "translator \<Rightarrow> int list \<times> int list \<Rightarrow> error + formula" where
  "imply_formula st pre_post =
     bind_err (get_or_formula st (fst pre_post) True) (\<lambda>pre.
     bind_err (get_or_formula st (snd pre_post) True) (\<lambda>post.
     Inr (Implies pre post)))"

subsection \<open>The determinism constraint\<close>

text \<open>The body of the first loop of \<^verbatim>\<open>gen_deterministic_formula\<close>, for one symbol.\<close>

definition deterministic_src :: "translator \<Rightarrow> string \<Rightarrow> error + formula" where
  "deterministic_src st ch =
     bind_err (lookup_id st ch) (\<lambda>id2.
     bind_err (py_get (var_list st) (quadruple_to_idx st 0 0 id2 1)) (\<lambda>v.
     bind_err (get_and_formula st (map (\<lambda>k2. quadruple_to_idx st 0 0 id2 k2) [1..k st]) False)
       (\<lambda>none. Inr (Or [v, none]))))"

text \<open>The body of the innermost of the three nested loops, for one \<open>(ch1, ch2, k1)\<close>.\<close>

definition deterministic_step :: "translator \<Rightarrow> string \<times> string \<times> int \<Rightarrow> error + formula" where
  "deterministic_step st c =
     (case c of (ch1, ch2, k1) \<Rightarrow>
        bind_err (lookup_id st ch1) (\<lambda>id1.
        bind_err (lookup_id st ch2) (\<lambda>id2.
        bind_err (map_err (\<lambda>m.
            bind_err (py_get (var_list st) (quadruple_to_idx st id1 k1 id2 m)) (\<lambda>pos.
            bind_err (get_and_formula st
                        (map (\<lambda>k2. quadruple_to_idx st id1 k1 id2 k2)
                           (filter (\<lambda>k2. k2 \<noteq> m) [1..k st])) False)
              (\<lambda>others. Inr (And [pos, others])))) [1..k st]) (\<lambda>part_2.
        bind_err (get_and_formula st (map (\<lambda>k2. quadruple_to_idx st id1 k1 id2 k2) [1..k st])
                    False)
          (\<lambda>none. Inr (Or (part_2 @ [none])))))))"

definition gen_deterministic_formula :: "translator \<Rightarrow> error + formula" where
  "gen_deterministic_formula st =
     (if k st = 1 then py_get (var_list st) 0
      else
        bind_err (map_err (deterministic_src st) (alphabet st)) (\<lambda>part_1.
        bind_err (map_err (deterministic_step st)
                    (concat (map (\<lambda>ch1. concat (map (\<lambda>ch2. map (\<lambda>k1. (ch1, ch2, k1)) [1..k st])
                                                   (alphabet st))) (alphabet st))))
          (\<lambda>rest. Inr (And (part_1 @ rest)))))"

subsection \<open>The global constraint of the occurrence tables\<close>

text \<open>\<^verbatim>\<open>for key, value in table.items(): if value > 0\<close>: the keys that are visited.\<close>

definition observed :: "('a \<times> int) list \<Rightarrow> 'a list" where
  "observed table = map fst (filter (\<lambda>kv. 0 < snd kv) table)"

definition generate_global_constraint_a :: "translator \<Rightarrow> error + formula list" where
  "generate_global_constraint_a st =
     bind_err (get_and_formula st
                 (concat (map (\<lambda>id2. get_alphabet_to_alphabet_list st 0 id2 False)
                            (observed (src_to_alphabet1_table st)))) True) (\<lambda>part_1.
     bind_err (map_err (\<lambda>key. get_or_formula st
                                (get_alphabet_to_alphabet_list st (fst key) (snd key) True) True)
                 (observed (alphabet1_to_alphabet_table st))) (\<lambda>part_2.
     bind_err (map_err (\<lambda>key. get_or_formula st
                                (get_alphabet_to_alphabet_list st (fst key) (snd key) False) True)
                 (observed (alphabet_to_alphabet_table st))) (\<lambda>part_3.
     bind_err (map_err (\<lambda>id1. get_or_formula st
                                (get_alphabet_to_alphabet_list st id1 (get_size st + 1) False) True)
                 (observed (alphabet_to_snk_table st))) (\<lambda>part_4.
     Inr ([part_1] @ part_2 @ part_3 @ part_4)))))"

definition generate_global_constraint_b :: "translator \<Rightarrow> error + formula list" where
  "generate_global_constraint_b st =
     bind_err (map_err (imply_formula st)
                 (concat (map (\<lambda>key. get_alphabet_to_alphabet_imply_list st
                                         (fst key) (fst (snd key)) (snd (snd key)) True)
                            (observed (alphabet1_to_alphabet_imply_table st))))) (\<lambda>part_1.
     bind_err (map_err (imply_formula st)
                 (concat (map (\<lambda>key. get_alphabet_to_alphabet_imply_list st
                                         (fst key) (fst (snd key)) (snd (snd key)) False)
                            (observed (alphabet_to_alphabet_imply_table st))))) (\<lambda>part_2.
     bind_err (map_err (imply_formula st)
                 (concat (map (\<lambda>key. get_alphabet_to_alphabet_imply_list st
                                         (fst key) (snd key) (get_size st + 1) False)
                            (observed (alphabet_to_snk_imply_table st))))) (\<lambda>part_3.
     Inr (part_1 @ part_2 @ part_3))))"

definition generate_global_constraint :: "translator \<Rightarrow> error + formula" where
  "generate_global_constraint st =
     bind_err (generate_global_constraint_a st) (\<lambda>a.
     bind_err (generate_global_constraint_b st) (\<lambda>b.
     (let parts = a @ b in
      if length parts = 0 then py_get (var_list st) 0 else Inr (And parts))))"

subsection \<open>The standalone formula of one sentence\<close>

definition gen_a_src :: "translator \<Rightarrow> string list \<Rightarrow> error + formula" where
  "gen_a_src st sentence =
     bind_err (symbol_id st sentence 0) (\<lambda>id2.
     py_get (var_list st) (quadruple_to_idx st 0 0 id2 1))"

definition gen_a_src_1 :: "translator \<Rightarrow> string list \<Rightarrow> error + formula" where
  "gen_a_src_1 st sentence =
     bind_err (symbol_id st sentence 0) (\<lambda>id1.
     bind_err (symbol_id st sentence 1) (\<lambda>id2.
     get_or_formula st (map (\<lambda>j. quadruple_to_idx st id1 1 id2 j) [1..k st]) True))"

definition gen_a_common :: "translator \<Rightarrow> string list \<Rightarrow> error + formula" where
  "gen_a_common st sentence =
     bind_err (map_err (\<lambda>i.
         bind_err (symbol_id st sentence i) (\<lambda>id1.
         bind_err (symbol_id st sentence (i + 1)) (\<lambda>id2.
         get_or_formula st (get_alphabet_to_alphabet_list st id1 id2 False) True)))
       [1..int (length sentence) - 2])
     (\<lambda>result. Inr (And result))"

definition gen_a_snk :: "translator \<Rightarrow> string list \<Rightarrow> error + formula" where
  "gen_a_snk st sentence =
     bind_err (symbol_id st sentence (- 1)) (\<lambda>id1.
     if int (length sentence) = 1
     then py_get (var_list st) (quadruple_to_idx st id1 1 (get_size st + 1) 0)
     else get_or_formula st
            (map (\<lambda>k1. quadruple_to_idx st id1 k1 (get_size st + 1) 0) [1..k st]) True)"

definition gen_constraint_a_formula :: "translator \<Rightarrow> string list \<Rightarrow> error + formula" where
  "gen_constraint_a_formula st sentence =
     (let slen = int (length sentence) in
      bind_err (gen_a_src st sentence) (\<lambda>src.
      bind_err (if slen > 1 then bind_err (gen_a_src_1 st sentence) (\<lambda>f. Inr [f]) else Inr [])
        (\<lambda>src_1.
      bind_err (if slen > 2 then bind_err (gen_a_common st sentence) (\<lambda>f. Inr [f]) else Inr [])
        (\<lambda>common.
      bind_err (gen_a_snk st sentence) (\<lambda>snk.
      Inr (And ([src] @ src_1 @ common @ [snk])))))))"

definition gen_b_src :: "translator \<Rightarrow> string list \<Rightarrow> error + formula" where
  "gen_b_src st sentence =
     bind_err (symbol_id st sentence 0) (\<lambda>id1.
     bind_err (symbol_id st sentence 1) (\<lambda>id2.
     bind_err (symbol_id st sentence 2) (\<lambda>id3.
     bind_err (map_err (\<lambda>j.
         bind_err (py_get (var_list st) (quadruple_to_idx st id1 1 id2 j)) (\<lambda>pre.
         bind_err (get_or_formula st
                     (map (\<lambda>j1. quadruple_to_idx st id2 j id3 j1) [1..k st]) True) (\<lambda>post.
         Inr (Implies pre post)))) [1..k st])
     (\<lambda>result. Inr (And result)))))"

definition gen_b_common :: "translator \<Rightarrow> string list \<Rightarrow> error + formula" where
  "gen_b_common st sentence =
     bind_err (map_err (\<lambda>i.
         bind_err (symbol_id st sentence i) (\<lambda>id1.
         bind_err (symbol_id st sentence (i + 1)) (\<lambda>id2.
         bind_err (symbol_id st sentence (i + 2)) (\<lambda>id3.
         map_err (imply_formula st)
           (get_alphabet_to_alphabet_imply_list st id1 id2 id3 False)))))
       [1..int (length sentence) - 3])
     (\<lambda>groups.
        (let result = concat groups in
         if length result = 0 then py_get (var_list st) 0 else Inr (And result)))"

definition gen_b_snk :: "translator \<Rightarrow> string list \<Rightarrow> error + formula" where
  "gen_b_snk st sentence =
     bind_err (symbol_id st sentence (- 2)) (\<lambda>id1.
     bind_err (symbol_id st sentence (- 1)) (\<lambda>id2.
     bind_err (map_err (\<lambda>j.
         bind_err (if int (length sentence) = 2
                   then py_get (var_list st) (quadruple_to_idx st id1 1 id2 j)
                   else get_or_formula st
                          (map (\<lambda>j1. quadruple_to_idx st id1 j1 id2 j) [1..k st]) True) (\<lambda>pre.
         bind_err (py_get (var_list st) (quadruple_to_idx st id2 j (get_size st + 1) 0)) (\<lambda>post.
         Inr (Implies pre post)))) [1..k st])
     (\<lambda>result. Inr (And result))))"

definition gen_constraint_b_formula :: "translator \<Rightarrow> string list \<Rightarrow> error + formula" where
  "gen_constraint_b_formula st sentence =
     (let slen = int (length sentence) in
      if slen \<le> 1 then py_get (var_list st) 0
      else
        bind_err (if slen > 2
                  then bind_err (gen_b_src st sentence) (\<lambda>f.
                       bind_err (gen_b_common st sentence) (\<lambda>g. Inr [f, g]))
                  else Inr []) (\<lambda>inner.
        bind_err (if slen > 1 then bind_err (gen_b_snk st sentence) (\<lambda>f. Inr [f]) else Inr [])
          (\<lambda>snk.
        Inr (And (inner @ snk)))))"

subsection \<open>Operations that change the class state\<close>

text \<open>
  A call takes the class state and leaves a state behind, also when it raises: the result is
  the returned value or the exception, together with the state after the call.
\<close>

type_synonym 'a action = "translator \<Rightarrow> (error + 'a) \<times> translator"

definition act_ret :: "'a \<Rightarrow> 'a action" where
  "act_ret x st = (Inr x, st)"

definition act_bind :: "'a action \<Rightarrow> ('a \<Rightarrow> 'b action) \<Rightarrow> 'b action" where
  "act_bind m f st = (case m st of (Inl e, st') \<Rightarrow> (Inl e, st') | (Inr x, st') \<Rightarrow> f x st')"

text \<open>Code that only reads the class state.\<close>

definition act_read :: "(translator \<Rightarrow> error + 'a) \<Rightarrow> 'a action" where
  "act_read r st = (r st, st)"

fun for_each :: "'a list \<Rightarrow> ('a \<Rightarrow> unit action) \<Rightarrow> unit action" where
  "for_each [] body = act_ret ()"
| "for_each (x # xs) body = act_bind (body x) (\<lambda>_. for_each xs body)"

text \<open>
  \<^verbatim>\<open>table.setdefault(key, 0); table[key] += 1\<close>: a new key goes to the end with count 1,
  a known key keeps its place.
\<close>

fun incr :: "('a \<times> int) list \<Rightarrow> 'a \<Rightarrow> ('a \<times> int) list" where
  "incr [] key = [(key, 0 + 1)]"
| "incr ((key', v) # rest) key =
     (if key' = key then (key', v + 1) # rest else (key', v) # incr rest key)"

definition count_src_to_alphabet1 :: "int \<Rightarrow> unit action" where
  "count_src_to_alphabet1 key st =
     (Inr (), st\<lparr>src_to_alphabet1_table := incr (src_to_alphabet1_table st) key\<rparr>)"

definition count_alphabet_to_snk :: "int \<Rightarrow> unit action" where
  "count_alphabet_to_snk key st =
     (Inr (), st\<lparr>alphabet_to_snk_table := incr (alphabet_to_snk_table st) key\<rparr>)"

definition count_alphabet1_to_alphabet :: "int \<times> int \<Rightarrow> unit action" where
  "count_alphabet1_to_alphabet key st =
     (Inr (), st\<lparr>alphabet1_to_alphabet_table := incr (alphabet1_to_alphabet_table st) key\<rparr>)"

definition count_alphabet_to_alphabet :: "int \<times> int \<Rightarrow> unit action" where
  "count_alphabet_to_alphabet key st =
     (Inr (), st\<lparr>alphabet_to_alphabet_table := incr (alphabet_to_alphabet_table st) key\<rparr>)"

definition count_alphabet_to_snk_imply :: "int \<times> int \<Rightarrow> unit action" where
  "count_alphabet_to_snk_imply key st =
     (Inr (), st\<lparr>alphabet_to_snk_imply_table := incr (alphabet_to_snk_imply_table st) key\<rparr>)"

definition count_alphabet1_to_alphabet_imply :: "int \<times> int \<times> int \<Rightarrow> unit action" where
  "count_alphabet1_to_alphabet_imply key st =
     (Inr (), st\<lparr>alphabet1_to_alphabet_imply_table :=
                    incr (alphabet1_to_alphabet_imply_table st) key\<rparr>)"

definition count_alphabet_to_alphabet_imply :: "int \<times> int \<times> int \<Rightarrow> unit action" where
  "count_alphabet_to_alphabet_imply key st =
     (Inr (), st\<lparr>alphabet_to_alphabet_imply_table :=
                    incr (alphabet_to_alphabet_imply_table st) key\<rparr>)"

text \<open>\<^verbatim>\<open>id_table[self.sentence[i]]\<close> as a step of a state-changing method.\<close>

definition read_id :: "string list \<Rightarrow> int \<Rightarrow> int action" where
  "read_id sentence i = act_read (\<lambda>st. symbol_id st sentence i)"

text \<open>
  \<^verbatim>\<open>_gen_sentence_constraint_a\<close> and \<^verbatim>\<open>_gen_sentence_constraint_b\<close> return the formula
  when \<open>ext\<close> is set, and otherwise update the tables and return \<^verbatim>\<open>None\<close>.
\<close>

definition gen_sentence_constraint_a :: "string list \<Rightarrow> bool \<Rightarrow> formula option action" where
  "gen_sentence_constraint_a sentence ext =
     (if ext then
        act_read (\<lambda>st. bind_err (gen_constraint_a_formula st sentence) (\<lambda>f. Inr (Some f)))
      else
        act_bind (read_id sentence 0) (\<lambda>id2.
        act_bind (count_src_to_alphabet1 id2) (\<lambda>_.
        act_bind (read_id sentence (- 1)) (\<lambda>id1.
        act_bind (count_alphabet_to_snk id1) (\<lambda>_.
        act_bind (if int (length sentence) > 1 then
                    act_bind (read_id sentence 0) (\<lambda>id1.
                    act_bind (read_id sentence 1) (\<lambda>id2.
                    count_alphabet1_to_alphabet (id1, id2)))
                  else act_ret ()) (\<lambda>_.
        act_bind (if int (length sentence) > 2 then
                    for_each [1..int (length sentence) - 2] (\<lambda>i.
                      act_bind (read_id sentence i) (\<lambda>id1.
                      act_bind (read_id sentence (i + 1)) (\<lambda>id2.
                      count_alphabet_to_alphabet (id1, id2))))
                  else act_ret ()) (\<lambda>_.
        act_ret None)))))))"

definition gen_sentence_constraint_b :: "string list \<Rightarrow> bool \<Rightarrow> formula option action" where
  "gen_sentence_constraint_b sentence ext =
     (if ext then
        act_read (\<lambda>st. bind_err (gen_constraint_b_formula st sentence) (\<lambda>f. Inr (Some f)))
      else
        act_bind (if int (length sentence) > 1 then
                    act_bind (read_id sentence (- 2)) (\<lambda>id1.
                    act_bind (read_id sentence (- 1)) (\<lambda>id2.
                    count_alphabet_to_snk_imply (id1, id2)))
                  else act_ret ()) (\<lambda>_.
        act_bind (if int (length sentence) > 2 then
                    act_bind (read_id sentence 0) (\<lambda>id1.
                    act_bind (read_id sentence 1) (\<lambda>id2.
                    act_bind (read_id sentence 2) (\<lambda>id3.
                    act_bind (count_alphabet1_to_alphabet_imply (id1, id2, id3)) (\<lambda>_.
                    for_each [1..int (length sentence) - 3] (\<lambda>i.
                      act_bind (read_id sentence i) (\<lambda>id1.
                      act_bind (read_id sentence (i + 1)) (\<lambda>id2.
                      act_bind (read_id sentence (i + 2)) (\<lambda>id3.
                      count_alphabet_to_alphabet_imply (id1, id2, id3)))))))))
                  else act_ret ()) (\<lambda>_.
        act_ret None)))"

text \<open>
  \<^verbatim>\<open>gen_sentence_constraint\<close>. With \<open>ext\<close> both parts are formulas and their conjunction
  is returned; z3 rejects \<^verbatim>\<open>None\<close> as an argument of \<^verbatim>\<open>And\<close>, a case that the two
  methods above exclude. Without \<open>ext\<close> the method returns \<^verbatim>\<open>None\<close>.
\<close>

definition gen_sentence_constraint :: "string list \<Rightarrow> bool \<Rightarrow> formula option action" where
  "gen_sentence_constraint sentence ext =
     act_bind (if int (length sentence) = 0
               then act_read (\<lambda>st. bind_err (py_get (var_list st) 0) (\<lambda>f. Inr (Some f)))
               else gen_sentence_constraint_a sentence ext) (\<lambda>const_a.
     act_bind (\<lambda>st. (if k st \<le> 1
                      then act_read (\<lambda>st. bind_err (py_get (var_list st) 0) (\<lambda>f. Inr (Some f)))
                      else gen_sentence_constraint_b sentence ext) st) (\<lambda>const_b.
     if ext then
       (case (const_a, const_b) of
          (Some a, Some b) \<Rightarrow> act_ret (Some (And [a, b]))
        | _ \<Rightarrow> (\<lambda>st. (Inl Z3Exception, st)))
     else act_ret None))"

text \<open>Counters start absent and only grow, so none is ever negative.\<close>

definition counts_nonneg :: "translator \<Rightarrow> bool" where
  "counts_nonneg st =
     (list_all (\<lambda>kv. 0 \<le> snd kv) (src_to_alphabet1_table st)
      \<and> list_all (\<lambda>kv. 0 \<le> snd kv) (alphabet1_to_alphabet_table st)
      \<and> list_all (\<lambda>kv. 0 \<le> snd kv) (alphabet_to_alphabet_table st)
      \<and> list_all (\<lambda>kv. 0 \<le> snd kv) (alphabet_to_snk_table st)
      \<and> list_all (\<lambda>kv. 0 \<le> snd kv) (alphabet1_to_alphabet_imply_table st)
      \<and> list_all (\<lambda>kv. 0 \<le> snd kv) (alphabet_to_alphabet_imply_table st)
      \<and> list_all (\<lambda>kv. 0 \<le> snd kv) (alphabet_to_snk_imply_table st))"

subsection \<open>The effect of aggregation, table by table\<close>

text \<open>The count that \<^verbatim>\<open>table[key]\<close> holds, 0 for a missing key.\<close>

definition count_of :: "('a \<times> int) list \<Rightarrow> 'a \<Rightarrow> int" where
  "count_of table key = (case map_of table key of None \<Rightarrow> 0 | Some v \<Rightarrow> v)"

text \<open>Counting a list of keys one after the other.\<close>

definition tally :: "('a \<times> int) list \<Rightarrow> 'a list \<Rightarrow> ('a \<times> int) list" where
  "tally table keys = foldl incr table keys"

text \<open>
  The keys that one sentence contributes, from the ids of its symbols: the adjacent pairs
  and the consecutive triples at the positions \<open>i\<close> of a range.
\<close>

definition pairs_at :: "int list \<Rightarrow> int list \<Rightarrow> (int \<times> int) list" where
  "pairs_at ids positions = map (\<lambda>i. (ids ! nat i, ids ! nat (i + 1))) positions"

definition triples_at :: "int list \<Rightarrow> int list \<Rightarrow> (int \<times> int \<times> int) list" where
  "triples_at ids positions =
     map (\<lambda>i. (ids ! nat i, ids ! nat (i + 1), ids ! nat (i + 2))) positions"

definition evidence_a :: "translator \<Rightarrow> int list \<Rightarrow> translator" where
  "evidence_a st ids =
     st\<lparr>src_to_alphabet1_table := tally (src_to_alphabet1_table st) [ids ! 0],
        alphabet_to_snk_table := tally (alphabet_to_snk_table st) [ids ! (length ids - 1)],
        alphabet1_to_alphabet_table :=
          tally (alphabet1_to_alphabet_table st) (if 1 < length ids then pairs_at ids [0] else []),
        alphabet_to_alphabet_table :=
          tally (alphabet_to_alphabet_table st) (pairs_at ids [1..int (length ids) - 2])\<rparr>"

definition evidence_b :: "translator \<Rightarrow> int list \<Rightarrow> translator" where
  "evidence_b st ids =
     st\<lparr>alphabet_to_snk_imply_table :=
          tally (alphabet_to_snk_imply_table st)
            (if 1 < length ids then pairs_at ids [int (length ids) - 2] else []),
        alphabet1_to_alphabet_imply_table :=
          tally (alphabet1_to_alphabet_imply_table st)
            (if 2 < length ids then triples_at ids [0] else []),
        alphabet_to_alphabet_imply_table :=
          tally (alphabet_to_alphabet_imply_table st)
            (triples_at ids [1..int (length ids) - 3])\<rparr>"

definition evidence :: "translator \<Rightarrow> int list \<Rightarrow> translator" where
  "evidence st ids =
     (let st1 = (if ids = [] then st else evidence_a st ids)
      in if k st \<le> 1 then st1 else evidence_b st1 ids)"

text \<open>The assignment that makes every variable true but the one numbered \<open>j\<close>.\<close>

definition all_but :: "int \<Rightarrow> int \<Rightarrow> bool" where
  "all_but j i = (i \<noteq> j)"

text \<open>
  The addressable 4-tuples: \<open>src\<close> to a symbol slot, a symbol slot to \<open>snk\<close>, \<open>src\<close> to
  \<open>snk\<close>, and a symbol slot to a symbol slot. \<open>src\<close> and \<open>snk\<close> carry the slot 0.
\<close>

definition valid_quadruple :: "translator \<Rightarrow> int \<times> int \<times> int \<times> int \<Rightarrow> bool" where
  "valid_quadruple st q =
     (case q of (id1, k1, id2, k2) \<Rightarrow>
        (id1 = 0 \<and> k1 = 0 \<and> 1 \<le> id2 \<and> id2 \<le> get_size st \<and> 1 \<le> k2 \<and> k2 \<le> k st)
      \<or> (1 \<le> id1 \<and> id1 \<le> get_size st \<and> 1 \<le> k1 \<and> k1 \<le> k st \<and> id2 = get_size st + 1 \<and> k2 = 0)
      \<or> (id1 = 0 \<and> k1 = 0 \<and> id2 = get_size st + 1 \<and> k2 = 0)
      \<or> (1 \<le> id1 \<and> id1 \<le> get_size st \<and> 1 \<le> k1 \<and> k1 \<le> k st
          \<and> 1 \<le> id2 \<and> id2 \<le> get_size st \<and> 1 \<le> k2 \<and> k2 \<le> k st))"

text \<open>A left inverse of the addressing on all four blocks, used to show that it is injective.\<close>

definition decode_idx :: "translator \<Rightarrow> int \<Rightarrow> int \<times> int \<times> int \<times> int" where
  "decode_idx st idx =
     (let n = get_number st; row = idx div n; col = idx mod n in
      if col = 0 then
        (if row = 1 then (0, 0, get_size st + 1, 0)
         else ((row - 2) div k st + 1, (row - 2) mod k st + 1, get_size st + 1, 0))
      else if row = 0 then (0, 0, (col - 1) div k st + 1, (col - 1) mod k st + 1)
      else ((row - 1) div k st + 1, (row - 1) mod k st + 1,
            (col - 1) div k st + 1, (col - 1) mod k st + 1))"

section \<open>Addressing properties\<close>

lemma global_init_fields [simp]:
  "alphabet (global_init a n) = a"
  "k (global_init a n) = n"
  "get_size (global_init a n) = int (length a)"
  "get_number (global_init a n) = n * int (length a) + 1"
  by (simp_all add: global_init_def gen_var_list_def gen_id_table_def class_state_def
      get_number_def get_size_def Let_def)

lemma divmod_slot:
  fixes q r K :: int
  assumes "0 \<le> r" "r < K"
  shows "(q * K + r) div K = q" and "(q * K + r) mod K = r"
  using assms by (simp_all add: div_pos_pos_trivial mod_pos_pos_trivial)

lemma row_bounds:
  fixes i j K S :: int
  assumes "1 \<le> i" "i \<le> S" "1 \<le> j" "j \<le> K"
  shows "1 \<le> (i - 1) * K + j" and "(i - 1) * K + j \<le> K * S"
proof -
  have K: "0 \<le> K" using assms by simp
  have "0 \<le> (i - 1) * K" using assms K by simp
  with assms(3) show "1 \<le> (i - 1) * K + j" by linarith
  have "(i - 1) * K \<le> (S - 1) * K" using assms K by (simp add: mult_right_mono)
  with assms(4) have "(i - 1) * K + j \<le> (S - 1) * K + K" by linarith
  also have "\<dots> = K * S" by (simp add: algebra_simps)
  finally show "(i - 1) * K + j \<le> K * S" .
qed

lemma row_decode:
  fixes i j K :: int
  assumes "1 \<le> j" "j \<le> K"
  shows "((i - 1) * K + j - 1) div K = i - 1" and "((i - 1) * K + j - 1) mod K = j - 1"
proof -
  have e: "(i - 1) * K + j - 1 = (i - 1) * K + (j - 1)" by simp
  show "((i - 1) * K + j - 1) div K = i - 1"
    unfolding e using assms by (intro divmod_slot) simp_all
  show "((i - 1) * K + j - 1) mod K = j - 1"
    unfolding e using assms by (intro divmod_slot) simp_all
qed

text \<open>The four blocks, each with its index, its bounds and its decoding.\<close>

lemma block_src_symbol:
  assumes "1 \<le> k st" and "1 \<le> id2" and "id2 \<le> get_size st" and "1 \<le> k2" and "k2 \<le> k st"
  shows "1 \<le> quadruple_to_idx st 0 0 id2 k2"
    and "quadruple_to_idx st 0 0 id2 k2 < get_number st"
    and "decode_idx st (quadruple_to_idx st 0 0 id2 k2) = (0, 0, id2, k2)"
proof -
  define col where "col = (id2 - 1) * k st + k2"
  have col: "1 \<le> col" "col \<le> k st * get_size st"
    unfolding col_def using assms row_bounds[of id2 "get_size st" k2 "k st"] by simp_all
  have q: "quadruple_to_idx st 0 0 id2 k2 = col"
    using assms by (simp add: quadruple_to_idx_def Let_def col_def)
  show "1 \<le> quadruple_to_idx st 0 0 id2 k2" using q col by simp
  show lt: "quadruple_to_idx st 0 0 id2 k2 < get_number st"
    using q col by (simp add: get_number_def)
  have dm: "col div get_number st = 0" "col mod get_number st = col"
    using col lt q by (simp_all add: div_pos_pos_trivial mod_pos_pos_trivial)
  have c: "(col - 1) div k st = id2 - 1" "(col - 1) mod k st = k2 - 1"
    unfolding col_def using assms by (simp_all add: row_decode)
  show "decode_idx st (quadruple_to_idx st 0 0 id2 k2) = (0, 0, id2, k2)"
    unfolding q decode_idx_def Let_def using dm c col by simp
qed

lemma block_src_snk:
  assumes "1 \<le> k st" and "1 \<le> get_size st"
  shows "quadruple_to_idx st 0 0 (get_size st + 1) 0 = get_number st"
    and "1 < get_number st"
    and "decode_idx st (get_number st) = (0, 0, get_size st + 1, 0)"
proof -
  show "quadruple_to_idx st 0 0 (get_size st + 1) 0 = get_number st"
    by (simp add: quadruple_to_idx_def)
  have "1 \<le> k st * get_size st" using assms by (metis mult_le_cancel_left1 mult.right_neutral mult_mono zero_le_one order_trans)
  then show n: "1 < get_number st" by (simp add: get_number_def)
  then show "decode_idx st (get_number st) = (0, 0, get_size st + 1, 0)"
    by (simp add: decode_idx_def Let_def)
qed

lemma block_symbol_snk:
  assumes "1 \<le> k st" and "1 \<le> id1" and "id1 \<le> get_size st" and "1 \<le> k1" and "k1 \<le> k st"
  shows "2 * get_number st \<le> quadruple_to_idx st id1 k1 (get_size st + 1) 0"
    and "quadruple_to_idx st id1 k1 (get_size st + 1) 0 \<le> get_number st * get_number st"
    and "decode_idx st (quadruple_to_idx st id1 k1 (get_size st + 1) 0)
           = (id1, k1, get_size st + 1, 0)"
proof -
  define row where "row = (id1 - 1) * k st + k1"
  define n where "n = get_number st"
  have row: "1 \<le> row" "row \<le> k st * get_size st"
    unfolding row_def using assms row_bounds[of id1 "get_size st" k1 "k st"] by simp_all
  have n: "1 < n" "row + 1 \<le> n" using row by (simp_all add: n_def get_number_def)
  have q: "quadruple_to_idx st id1 k1 (get_size st + 1) 0 = (row + 1) * n"
    using assms by (simp add: quadruple_to_idx_def Let_def row_def n_def)
  have "2 * n \<le> (row + 1) * n" using row n by (intro mult_right_mono) simp_all
  then show "2 * get_number st \<le> quadruple_to_idx st id1 k1 (get_size st + 1) 0"
    using q by (simp add: n_def)
  have "(row + 1) * n \<le> n * n" using n by (intro mult_right_mono) simp_all
  then show "quadruple_to_idx st id1 k1 (get_size st + 1) 0 \<le> get_number st * get_number st"
    using q by (simp add: n_def)
  have dm: "((row + 1) * n) div n = row + 1" "((row + 1) * n) mod n = 0"
    using n by simp_all
  have r: "(row - 1) div k st = id1 - 1" "(row - 1) mod k st = k1 - 1"
    unfolding row_def using assms by (simp_all add: row_decode)
  have "row + 1 \<noteq> 1" using row by simp
  then show "decode_idx st (quadruple_to_idx st id1 k1 (get_size st + 1) 0)
           = (id1, k1, get_size st + 1, 0)"
    unfolding q decode_idx_def Let_def n_def[symmetric] using dm r by simp
qed

lemma block_interior:
  assumes "1 \<le> k st"
    and "1 \<le> id1" and "id1 \<le> get_size st" and "1 \<le> k1" and "k1 \<le> k st"
    and "1 \<le> id2" and "id2 \<le> get_size st" and "1 \<le> k2" and "k2 \<le> k st"
  shows "get_number st < quadruple_to_idx st id1 k1 id2 k2"
    and "quadruple_to_idx st id1 k1 id2 k2 < get_number st * get_number st"
    and "decode_idx st (quadruple_to_idx st id1 k1 id2 k2) = (id1, k1, id2, k2)"
proof -
  define row where "row = (id1 - 1) * k st + k1"
  define col where "col = (id2 - 1) * k st + k2"
  define n where "n = get_number st"
  have row: "1 \<le> row" "row \<le> k st * get_size st"
    unfolding row_def using assms row_bounds[of id1 "get_size st" k1 "k st"] by simp_all
  have col: "1 \<le> col" "col \<le> k st * get_size st"
    unfolding col_def using assms row_bounds[of id2 "get_size st" k2 "k st"] by simp_all
  have n: "1 < n" "row + 1 \<le> n" "col < n" using row col by (simp_all add: n_def get_number_def)
  have q: "quadruple_to_idx st id1 k1 id2 k2 = row * n + col"
    using assms by (simp add: quadruple_to_idx_def Let_def row_def col_def n_def)
  have "1 * n \<le> row * n" using row n by (intro mult_right_mono) simp_all
  then show "get_number st < quadruple_to_idx st id1 k1 id2 k2"
    using q col by (simp add: n_def)
  have "(row + 1) * n \<le> n * n" using n by (intro mult_right_mono) simp_all
  moreover have "row * n + col < (row + 1) * n" using n by (simp add: algebra_simps)
  ultimately show "quadruple_to_idx st id1 k1 id2 k2 < get_number st * get_number st"
    using q by (simp add: n_def)
  have dm: "(row * n + col) div n = row" "(row * n + col) mod n = col"
    using col n by (simp_all add: divmod_slot)
  have r: "(row - 1) div k st = id1 - 1" "(row - 1) mod k st = k1 - 1"
    unfolding row_def using assms by (simp_all add: row_decode)
  have c: "(col - 1) div k st = id2 - 1" "(col - 1) mod k st = k2 - 1"
    unfolding col_def using assms by (simp_all add: row_decode)
  show "decode_idx st (quadruple_to_idx st id1 k1 id2 k2) = (id1, k1, id2, k2)"
    unfolding q decode_idx_def Let_def n_def[symmetric] using dm r c row col by simp
qed

lemma valid_quadruple_decode:
  assumes "1 \<le> get_size st" and "1 \<le> k st" and "valid_quadruple st (id1, k1, id2, k2)"
  shows "1 \<le> quadruple_to_idx st id1 k1 id2 k2"
    and "quadruple_to_idx st id1 k1 id2 k2 \<le> get_number st * get_number st"
    and "decode_idx st (quadruple_to_idx st id1 k1 id2 k2) = (id1, k1, id2, k2)"
proof -
  define n where "n = get_number st"
  define m where "m = n * n"
  define q where "q = quadruple_to_idx st id1 k1 id2 k2"
  have n: "1 < n" using assms block_src_snk(2) by (simp add: n_def)
  then have nn: "n \<le> m" by (simp add: m_def)
  consider
    (src) "id1 = 0" "k1 = 0" "1 \<le> id2" "id2 \<le> get_size st" "1 \<le> k2" "k2 \<le> k st"
  | (snk) "1 \<le> id1" "id1 \<le> get_size st" "1 \<le> k1" "k1 \<le> k st" "id2 = get_size st + 1" "k2 = 0"
  | (both) "id1 = 0" "k1 = 0" "id2 = get_size st + 1" "k2 = 0"
  | (inner) "1 \<le> id1" "id1 \<le> get_size st" "1 \<le> k1" "k1 \<le> k st"
      "1 \<le> id2" "id2 \<le> get_size st" "1 \<le> k2" "k2 \<le> k st"
    using assms(3) unfolding valid_quadruple_def by auto
  then have "1 \<le> q \<and> q \<le> m \<and> decode_idx st q = (id1, k1, id2, k2)"
  proof cases
    case src
    have "1 \<le> q" "q < n" "decode_idx st q = (id1, k1, id2, k2)"
      using src assms(2) block_src_symbol[of st id2 k2] by (simp_all add: q_def n_def)
    with nn show ?thesis by simp
  next
    case snk
    have "2 * n \<le> q" "q \<le> m" "decode_idx st q = (id1, k1, id2, k2)"
      using snk assms(2) block_symbol_snk[of st id1 k1] by (simp_all add: q_def n_def m_def)
    with n show ?thesis by simp
  next
    case both
    have "q = n" "decode_idx st n = (id1, k1, id2, k2)"
      using both assms block_src_snk[of st] by (simp_all add: q_def n_def)
    with n nn show ?thesis by simp
  next
    case inner
    have "n < q" "q < m" "decode_idx st q = (id1, k1, id2, k2)"
      using inner assms(2) block_interior[of st id1 k1 id2 k2] by (simp_all add: q_def n_def m_def)
    with n show ?thesis by simp
  qed
  then show "1 \<le> quadruple_to_idx st id1 k1 id2 k2"
    and "quadruple_to_idx st id1 k1 id2 k2 \<le> get_number st * get_number st"
    and "decode_idx st (quadruple_to_idx st id1 k1 id2 k2) = (id1, k1, id2, k2)"
    by (simp_all add: q_def m_def n_def)
qed

lemma var_list_global_init:
  "var_list (global_init a n) =
     BoolVal True # map BoolVar [1..(n * int (length a) + 1) * (n * int (length a) + 1)]
       @ [BoolVal False]"
  by (simp add: global_init_def gen_var_list_def gen_id_table_def class_state_def
      get_number_def get_size_def Let_def)

lemma var_list_lookup:
  assumes "1 \<le> i" and "i \<le> m"
  shows "py_get (BoolVal True # map BoolVar [1..m] @ [BoolVal False]) i = Inr (BoolVar i)"
proof -
  define xs where "xs = BoolVal True # map BoolVar [1..m] @ [BoolVal False]"
  have len: "int (length xs) = m + 2" using assms by (simp add: xs_def)
  have jm: "nat i - 1 < nat m" using assms by linarith
  have "[1..m] ! (nat i - 1) = 1 + int (nat i - 1)" using jm assms by (intro nth_upto) linarith
  also have "\<dots> = i" using assms by linarith
  finally have u: "[1..m] ! (nat i - 1) = i" .
  have "0 < nat i" using assms by simp
  then have "xs ! nat i = (map BoolVar [1..m] @ [BoolVal False]) ! (nat i - 1)"
    unfolding xs_def by (rule nth_Cons_pos)
  also have "\<dots> = map BoolVar [1..m] ! (nat i - 1)" using jm by (simp add: nth_append)
  also have "\<dots> = BoolVar i" using jm u by simp
  finally have x: "xs ! nat i = BoolVar i" .
  have "py_get xs i = Inr (xs ! nat i)"
    unfolding py_get_def len using assms by simp
  then show ?thesis using x by (simp add: xs_def)
qed

text \<open>
  C2. On the interior block (both ids in \<open>1..S\<close>, both slots in \<open>1..k\<close>, with
  \<open>S \<ge> 1\<close> and \<open>k \<ge> 1\<close>) decoding the encoded index gives the tuple back.
\<close>

theorem idx_roundtrip_interior:
  assumes "1 \<le> get_size st" and "1 \<le> k st"
    and "1 \<le> id1" and "id1 \<le> get_size st" and "1 \<le> k1" and "k1 \<le> k st"
    and "1 \<le> id2" and "id2 \<le> get_size st" and "1 \<le> k2" and "k2 \<le> k st"
  shows "idx_to_quadruple st (quadruple_to_idx st id1 k1 id2 k2) = Inr (id1, k1, id2, k2)"
proof -
  define K where "K = k st"
  define S where "S = get_size st"
  define N where "N = K * S + 1"
  define row where "row = (id1 - 1) * K + k1"
  define col where "col = (id2 - 1) * K + k2"
  have row: "1 \<le> row" "row \<le> K * S"
    unfolding row_def using assms row_bounds[of id1 S k1 K] by (simp_all add: K_def S_def)
  have col: "1 \<le> col" "col \<le> K * S"
    unfolding col_def using assms row_bounds[of id2 S k2 K] by (simp_all add: K_def S_def)
  have N: "0 < N" "col < N" using col by (simp_all add: N_def)
  have q: "quadruple_to_idx st id1 k1 id2 k2 = row * N + col"
    using assms by (simp add: quadruple_to_idx_def get_number_def Let_def K_def S_def N_def
        row_def col_def)
  have dm: "(row * N + col) div N = row" "(row * N + col) mod N = col"
    using col N by (simp_all add: divmod_slot)
  have r: "(row - 1) div K = id1 - 1" "(row - 1) mod K = k1 - 1"
    unfolding row_def using assms by (simp_all add: row_decode K_def)
  have c: "(col - 1) div K = id2 - 1" "(col - 1) mod K = k2 - 1"
    unfolding col_def using assms by (simp_all add: row_decode K_def)
  have K0: "K \<noteq> 0" "N \<noteq> 0" using assms N by (simp_all add: K_def)
  show ?thesis
    unfolding q idx_to_quadruple_def py_divmod_def
    using dm r c K0 by (simp add: get_number_def K_def[symmetric] S_def[symmetric] N_def[symmetric])
qed

theorem idx_roundtrip_interior_witness:
  "1 \<le> get_size (global_init [''a'', ''b''] 2) \<and> 1 \<le> k (global_init [''a'', ''b''] 2)
   \<and> quadruple_to_idx (global_init [''a'', ''b''] 2) 2 1 1 2 = 17
   \<and> idx_to_quadruple (global_init [''a'', ''b''] 2) 17 = Inr (2, 1, 1, 2)"
  using idx_roundtrip_interior [of "global_init [''a'', ''b''] 2" 2 1 1 2]
  by (simp add: quadruple_to_idx_def)

text \<open>
  C3, as the code has it. The index of the \<open>src\<close> to \<open>snk\<close> edge is \<open>N = k * S + 1\<close>,
  whatever slots are passed: it is fixed within one configuration and varies with \<open>S\<close>
  and \<open>k\<close>.
\<close>

theorem src_snk_idx_is_number:
  "quadruple_to_idx st 0 k1 (get_size st + 1) k2 = k st * get_size st + 1"
  by (simp add: quadruple_to_idx_def get_number_def)

text \<open>C3 as stated fails: the index is 2 for one symbol, 3 for two symbols or two slots.\<close>

theorem src_snk_idx_depends_on_config:
  "quadruple_to_idx (global_init [''a''] 1) 0 0 (get_size (global_init [''a''] 1) + 1) 0 = 2
   \<and> quadruple_to_idx (global_init [''a'', ''b''] 1) 0 0
         (get_size (global_init [''a'', ''b''] 1) + 1) 0 = 3
   \<and> quadruple_to_idx (global_init [''a''] 2) 0 0 (get_size (global_init [''a''] 2) + 1) 0 = 3"
  by (simp add: quadruple_to_idx_def)

text \<open>
  C7, as the code has it. The addressing checks nothing: for all integer arguments, in
  range or not, the call returns a value and never an exception.
\<close>

theorem quadruple_to_idx_never_faults:
  "quadruple_to_idx_outcome st id1 k1 id2 k2 \<noteq> Inl e"
  by (simp add: quadruple_to_idx_outcome_def)

text \<open>
  C7 as stated fails: with two symbols and \<open>k = 2\<close> the slot 3 is out of range, and the call
  returns 16, which is the index of the valid tuple \<open>(2, 1, 1, 1)\<close>.
\<close>

theorem quadruple_to_idx_out_of_range_returns:
  "\<not> (3 \<le> k (global_init [''a'', ''b''] 2))
   \<and> quadruple_to_idx_outcome (global_init [''a'', ''b''] 2) 1 3 1 1 = Inr 16
   \<and> quadruple_to_idx_outcome (global_init [''a'', ''b''] 2) 2 1 1 1 = Inr 16"
  by (simp add: quadruple_to_idx_outcome_def quadruple_to_idx_def)

text \<open>
  C9. With \<open>S \<ge> 1\<close> and \<open>k \<ge> 1\<close> the addressing maps the valid tuples of all four
  blocks injectively into \<open>1..N * N\<close>, and the entry of the variable list at such an index
  is the variable of that number, neither of the two constants at the ends of the list.
\<close>

theorem quadruple_to_idx_injective:
  assumes "1 \<le> get_size st" and "1 \<le> k st"
    and "valid_quadruple st (id1, k1, id2, k2)" and "valid_quadruple st (id1', k1', id2', k2')"
  shows "1 \<le> quadruple_to_idx st id1 k1 id2 k2
       \<and> quadruple_to_idx st id1 k1 id2 k2 \<le> get_number st * get_number st
       \<and> (quadruple_to_idx st id1 k1 id2 k2 = quadruple_to_idx st id1' k1' id2' k2'
            \<longrightarrow> (id1, k1, id2, k2) = (id1', k1', id2', k2'))
       \<and> (var_list st = var_list (global_init (alphabet st) (k st))
            \<longrightarrow> py_get (var_list st) (quadruple_to_idx st id1 k1 id2 k2)
                  = Inr (BoolVar (quadruple_to_idx st id1 k1 id2 k2)))"
proof (intro conjI impI)
  note p = valid_quadruple_decode[OF assms(1,2,3)]
  note q = valid_quadruple_decode[OF assms(1,2,4)]
  show "1 \<le> quadruple_to_idx st id1 k1 id2 k2" by (rule p(1))
  show "quadruple_to_idx st id1 k1 id2 k2 \<le> get_number st * get_number st" by (rule p(2))
  show "(id1, k1, id2, k2) = (id1', k1', id2', k2')"
    if "quadruple_to_idx st id1 k1 id2 k2 = quadruple_to_idx st id1' k1' id2' k2'"
  proof -
    have "(id1, k1, id2, k2) = decode_idx st (quadruple_to_idx st id1 k1 id2 k2)"
      by (rule p(3)[symmetric])
    also have "\<dots> = decode_idx st (quadruple_to_idx st id1' k1' id2' k2')"
      by (rule arg_cong[OF that])
    also have "\<dots> = (id1', k1', id2', k2')" by (rule q(3))
    finally show ?thesis .
  qed
  show "py_get (var_list st) (quadruple_to_idx st id1 k1 id2 k2)
          = Inr (BoolVar (quadruple_to_idx st id1 k1 id2 k2))"
    if v: "var_list st = var_list (global_init (alphabet st) (k st))"
  proof -
    have m: "(k st * int (length (alphabet st)) + 1) * (k st * int (length (alphabet st)) + 1)
               = get_number st * get_number st"
      by (simp only: get_number_def get_size_def)
    have "py_get (BoolVal True # map BoolVar [1..get_number st * get_number st] @ [BoolVal False])
            (quadruple_to_idx st id1 k1 id2 k2)
          = Inr (BoolVar (quadruple_to_idx st id1 k1 id2 k2))"
      using p(1,2) by (rule var_list_lookup)
    then show ?thesis by (simp only: v var_list_global_init m)
  qed
qed

theorem quadruple_to_idx_injective_witness:
  "1 \<le> get_size (global_init [''a'', ''b''] 2) \<and> 1 \<le> k (global_init [''a'', ''b''] 2)
   \<and> valid_quadruple (global_init [''a'', ''b''] 2) (1, 2, 3, 0)
   \<and> valid_quadruple (global_init [''a'', ''b''] 2) (0, 0, 2, 1)
   \<and> 1 \<le> quadruple_to_idx (global_init [''a'', ''b''] 2) 1 2 3 0
   \<and> quadruple_to_idx (global_init [''a'', ''b''] 2) 1 2 3 0 \<le> 25
   \<and> quadruple_to_idx (global_init [''a'', ''b''] 2) 1 2 3 0
       \<noteq> quadruple_to_idx (global_init [''a'', ''b''] 2) 0 0 2 1
   \<and> py_get (var_list (global_init [''a'', ''b''] 2))
         (quadruple_to_idx (global_init [''a'', ''b''] 2) 1 2 3 0)
       = Inr (BoolVar (quadruple_to_idx (global_init [''a'', ''b''] 2) 1 2 3 0))"
proof -
  have h: "1 \<le> get_size (global_init [''a'', ''b''] 2)" "1 \<le> k (global_init [''a'', ''b''] 2)"
    "valid_quadruple (global_init [''a'', ''b''] 2) (1, 2, 3, 0)"
    "valid_quadruple (global_init [''a'', ''b''] 2) (0, 0, 2, 1)"
    by (simp_all add: valid_quadruple_def)
  show ?thesis
    using h quadruple_to_idx_injective [OF h] by simp
qed


section \<open>Tables and aggregation\<close>

subsection \<open>Counting keys\<close>

lemma count_of_nonneg: "list_all (\<lambda>kv. 0 \<le> snd kv) t \<Longrightarrow> 0 \<le> count_of t key"
  by (induction t) (auto simp: count_of_def)

lemma count_of_incr:
  "count_of (incr t key) key' = count_of t key' + (if key' = key then 1 else 0)"
  by (induction t) (auto simp: count_of_def)

lemma count_of_tally:
  "count_of (tally t keys) key = count_of t key + int (count_list keys key)"
  unfolding tally_def by (induction keys arbitrary: t) (simp_all add: count_of_incr)

lemma observed_if_counted: "0 < count_of t key \<Longrightarrow> key \<in> set (observed t)"
proof -
  assume a: "0 < count_of t key"
  then obtain v where v: "map_of t key = Some v" "0 < v"
    by (cases "map_of t key") (simp_all add: count_of_def)
  then have "(key, v) \<in> set t" by (simp add: map_of_SomeD)
  with v show ?thesis by (force simp: observed_def)
qed

lemma observed_incr_counted: "0 < count_of t key \<Longrightarrow> observed (incr t key) = observed t"
  by (induction t) (auto simp: count_of_def observed_def)

lemma observed_tally_counted:
  "\<forall>key \<in> set keys. 0 < count_of t key \<Longrightarrow> observed (tally t keys) = observed t"
proof (induction keys arbitrary: t)
  case Nil
  then show ?case by (simp add: tally_def)
next
  case (Cons key keys)
  have "\<forall>key' \<in> set keys. 0 < count_of (incr t key) key'"
    using Cons.prems by (simp add: count_of_incr)
  then have "observed (tally (incr t key) keys) = observed (incr t key)"
    by (rule Cons.IH)
  also have "\<dots> = observed t" using Cons.prems by (simp add: observed_incr_counted)
  finally show ?case by (simp add: tally_def)
qed

lemma count_list_member: "key \<in> set keys \<Longrightarrow> 0 < count_list keys key"
  by (induction keys) auto

lemma observed_tally_twice:
  assumes "list_all (\<lambda>kv. 0 \<le> snd kv) t"
  shows "observed (tally (tally t keys) keys) = observed (tally t keys)"
proof (rule observed_tally_counted, rule ballI)
  fix key assume "key \<in> set keys"
  then have "0 < count_list keys key" by (rule count_list_member)
  moreover have "0 \<le> count_of t key" using assms by (rule count_of_nonneg)
  ultimately show "0 < count_of (tally t keys) key" by (simp add: count_of_tally)
qed

lemma observed_tally_member:
  assumes "list_all (\<lambda>kv. 0 \<le> snd kv) t" and "key \<in> set keys"
  shows "key \<in> set (observed (tally t keys))"
proof (rule observed_if_counted)
  have "0 < count_list keys key" using assms(2) by (rule count_list_member)
  moreover have "0 \<le> count_of t key" using assms(1) by (rule count_of_nonneg)
  ultimately show "0 < count_of (tally t keys) key" by (simp add: count_of_tally)
qed

subsection \<open>What one aggregated sentence changes\<close>

lemma symbol_id_at:
  assumes "map (id_table st) s = map Some ids" and "0 \<le> i" and "i < int (length s)"
  shows "symbol_id st s i = Inr (ids ! nat i)"
proof -
  have len: "length ids = length s" using assms(1) by (metis length_map)
  have n: "nat i < length s" using assms(2,3) by linarith
  have "id_table st (s ! nat i) = map (id_table st) s ! nat i" using n by simp
  also have "\<dots> = Some (ids ! nat i)" using n len by (simp add: assms(1))
  finally have "lookup_id st (s ! nat i) = Inr (ids ! nat i)" by (simp add: lookup_id_def)
  moreover have "py_get s i = Inr (s ! nat i)" using assms(2,3) by (simp add: py_get_def)
  ultimately show ?thesis by (simp add: symbol_id_def bind_err_def)
qed

lemma symbol_id_from_end:
  assumes "map (id_table st) s = map Some ids" and "i < 0" and "- int (length s) \<le> i"
  shows "symbol_id st s i = Inr (ids ! nat (int (length s) + i))"
proof -
  have len: "length ids = length s" using assms(1) by (metis length_map)
  define j where "j = nat (int (length s) + i)"
  have n: "j < length s" using assms(2,3) by (simp add: j_def)
  have "id_table st (s ! j) = map (id_table st) s ! j" using n by simp
  also have "\<dots> = Some (ids ! j)" using n len by (simp add: assms(1))
  finally have "lookup_id st (s ! j) = Inr (ids ! j)" by (simp add: lookup_id_def)
  moreover have "py_get s i = Inr (s ! j)" using assms(2,3) by (simp add: py_get_def j_def)
  ultimately show ?thesis by (simp add: symbol_id_def bind_err_def j_def)
qed

lemma for_each_pairs:
  assumes "map (id_table st) s = map Some ids"
    and "\<forall>i \<in> set positions. 0 \<le> i \<and> i + 1 < int (length s)"
  shows "for_each positions (\<lambda>i.
           act_bind (read_id s i) (\<lambda>id1.
           act_bind (read_id s (i + 1)) (\<lambda>id2.
           count_alphabet_to_alphabet (id1, id2)))) st
         = (Inr (), st\<lparr>alphabet_to_alphabet_table :=
                          tally (alphabet_to_alphabet_table st) (pairs_at ids positions)\<rparr>)"
  using assms
proof (induction positions arbitrary: st)
  case Nil
  then show ?case by (simp add: act_ret_def tally_def pairs_at_def)
next
  case (Cons i positions)
  have i: "0 \<le> i" "i < int (length s)" "0 \<le> i + 1" "i + 1 < int (length s)"
    using Cons.prems(2) by simp_all
  define st' where
    "st' = st\<lparr>alphabet_to_alphabet_table :=
                incr (alphabet_to_alphabet_table st) (ids ! nat i, ids ! nat (i + 1))\<rparr>"
  have step: "act_bind (read_id s i) (\<lambda>id1.
           act_bind (read_id s (i + 1)) (\<lambda>id2.
           count_alphabet_to_alphabet (id1, id2))) st = (Inr (), st')"
    using symbol_id_at[OF Cons.prems(1) i(1,2)] symbol_id_at[OF Cons.prems(1) i(3,4)]
    by (simp add: act_bind_def read_id_def act_read_def count_alphabet_to_alphabet_def st'_def)
  have "map (id_table st') s = map Some ids" using Cons.prems(1) by (simp add: st'_def)
  moreover have "\<forall>i \<in> set positions. 0 \<le> i \<and> i + 1 < int (length s)"
    using Cons.prems(2) by simp
  ultimately have rest: "for_each positions (\<lambda>i.
           act_bind (read_id s i) (\<lambda>id1.
           act_bind (read_id s (i + 1)) (\<lambda>id2.
           count_alphabet_to_alphabet (id1, id2)))) st'
         = (Inr (), st'\<lparr>alphabet_to_alphabet_table :=
                          tally (alphabet_to_alphabet_table st') (pairs_at ids positions)\<rparr>)"
    by (rule Cons.IH)
  show ?case
    by (simp add: act_bind_def[of "act_bind _ _"] step rest)
       (simp add: st'_def tally_def pairs_at_def)
qed

lemma for_each_triples:
  assumes "map (id_table st) s = map Some ids"
    and "\<forall>i \<in> set positions. 0 \<le> i \<and> i + 2 < int (length s)"
  shows "for_each positions (\<lambda>i.
           act_bind (read_id s i) (\<lambda>id1.
           act_bind (read_id s (i + 1)) (\<lambda>id2.
           act_bind (read_id s (i + 2)) (\<lambda>id3.
           count_alphabet_to_alphabet_imply (id1, id2, id3))))) st
         = (Inr (), st\<lparr>alphabet_to_alphabet_imply_table :=
                          tally (alphabet_to_alphabet_imply_table st) (triples_at ids positions)\<rparr>)"
  using assms
proof (induction positions arbitrary: st)
  case Nil
  then show ?case by (simp add: act_ret_def tally_def triples_at_def)
next
  case (Cons i positions)
  have i: "0 \<le> i" "i < int (length s)" "0 \<le> i + 1" "i + 1 < int (length s)"
    "0 \<le> i + 2" "i + 2 < int (length s)"
    using Cons.prems(2) by simp_all
  define st' where
    "st' = st\<lparr>alphabet_to_alphabet_imply_table :=
                incr (alphabet_to_alphabet_imply_table st)
                  (ids ! nat i, ids ! nat (i + 1), ids ! nat (i + 2))\<rparr>"
  have step: "act_bind (read_id s i) (\<lambda>id1.
           act_bind (read_id s (i + 1)) (\<lambda>id2.
           act_bind (read_id s (i + 2)) (\<lambda>id3.
           count_alphabet_to_alphabet_imply (id1, id2, id3)))) st = (Inr (), st')"
    using symbol_id_at[OF Cons.prems(1) i(1,2)] symbol_id_at[OF Cons.prems(1) i(3,4)]
      symbol_id_at[OF Cons.prems(1) i(5,6)]
    by (simp add: act_bind_def read_id_def act_read_def count_alphabet_to_alphabet_imply_def
        st'_def)
  have "map (id_table st') s = map Some ids" using Cons.prems(1) by (simp add: st'_def)
  moreover have "\<forall>i \<in> set positions. 0 \<le> i \<and> i + 2 < int (length s)"
    using Cons.prems(2) by simp
  ultimately have rest: "for_each positions (\<lambda>i.
           act_bind (read_id s i) (\<lambda>id1.
           act_bind (read_id s (i + 1)) (\<lambda>id2.
           act_bind (read_id s (i + 2)) (\<lambda>id3.
           count_alphabet_to_alphabet_imply (id1, id2, id3))))) st'
         = (Inr (), st'\<lparr>alphabet_to_alphabet_imply_table :=
                          tally (alphabet_to_alphabet_imply_table st') (triples_at ids positions)\<rparr>)"
    by (rule Cons.IH)
  show ?case
    by (simp add: act_bind_def[of "act_bind _ _"] step rest)
       (simp add: st'_def tally_def triples_at_def)
qed

lemma read_id_at:
  assumes "map (id_table st) s = map Some ids" and "0 \<le> i" and "i < int (length s)"
  shows "read_id s i st = (Inr (ids ! nat i), st)"
  using symbol_id_at[OF assms] by (simp add: read_id_def act_read_def)

lemma read_id_from_end:
  assumes "map (id_table st) s = map Some ids" and "i < 0" and "- int (length s) \<le> i"
  shows "read_id s i st = (Inr (ids ! nat (int (length s) + i)), st)"
  using symbol_id_from_end[OF assms] by (simp add: read_id_def act_read_def)

lemma gen_sentence_constraint_a_updates:
  assumes ids: "map (id_table st) s = map Some ids" and ne: "s \<noteq> []"
  shows "gen_sentence_constraint_a s False st = (Inr None, evidence_a st ids)"
proof -
  have len: "length ids = length s" using ids by (metis length_map)
  define n where "n = int (length s)"
  have n: "1 \<le> n" using ne by (cases s) (simp_all add: n_def)
  define st1 where "st1 = st\<lparr>src_to_alphabet1_table := incr (src_to_alphabet1_table st) (ids ! 0)\<rparr>"
  define st2 where "st2 = st1\<lparr>alphabet_to_snk_table :=
                                 incr (alphabet_to_snk_table st1) (ids ! (length ids - 1))\<rparr>"
  define st3 where "st3 = st2\<lparr>alphabet1_to_alphabet_table :=
      tally (alphabet1_to_alphabet_table st2) (if 1 < length ids then pairs_at ids [0] else [])\<rparr>"
  define st4 where "st4 = st3\<lparr>alphabet_to_alphabet_table :=
      tally (alphabet_to_alphabet_table st3) (pairs_at ids [1..n - 2])\<rparr>"
  have i1: "map (id_table st1) s = map Some ids" using ids by (simp add: st1_def)
  have i2: "map (id_table st2) s = map Some ids" using ids by (simp add: st1_def st2_def)
  have i3: "map (id_table st3) s = map Some ids" using ids by (simp add: st1_def st2_def st3_def)
  have a: "read_id s 0 st = (Inr (ids ! 0), st)"
    using read_id_at[OF ids, of 0] ne by simp
  have b: "count_src_to_alphabet1 (ids ! 0) st = (Inr (), st1)"
    by (simp add: count_src_to_alphabet1_def st1_def)
  have "nat (int (length s) + - 1) = length ids - 1" using len by simp
  then have c: "read_id s (- 1) st1 = (Inr (ids ! (length ids - 1)), st1)"
    using read_id_from_end[OF i1, of "- 1"] n by (simp add: n_def)
  have d: "count_alphabet_to_snk (ids ! (length ids - 1)) st1 = (Inr (), st2)"
    by (simp add: count_alphabet_to_snk_def st2_def)
  have e: "(if int (length s) > 1 then
               act_bind (read_id s 0) (\<lambda>id1.
               act_bind (read_id s 1) (\<lambda>id2.
               count_alphabet1_to_alphabet (id1, id2)))
            else act_ret ()) st2 = (Inr (), st3)"
  proof (cases "1 < n")
    case True
    have "read_id s 0 st2 = (Inr (ids ! 0), st2)"
      using read_id_at[OF i2, of 0] ne by simp
    moreover have "read_id s 1 st2 = (Inr (ids ! 1), st2)"
      using read_id_at[OF i2, of 1] True by (simp add: n_def)
    ultimately show ?thesis
      using True len
      by (simp add: act_bind_def count_alphabet1_to_alphabet_def st3_def tally_def pairs_at_def
          n_def)
  next
    case False
    then show ?thesis using len by (simp add: act_ret_def st3_def tally_def n_def)
  qed
  have f: "(if int (length s) > 2 then
               for_each [1..int (length s) - 2] (\<lambda>i.
                 act_bind (read_id s i) (\<lambda>id1.
                 act_bind (read_id s (i + 1)) (\<lambda>id2.
                 count_alphabet_to_alphabet (id1, id2))))
            else act_ret ()) st3 = (Inr (), st4)"
  proof (cases "2 < n")
    case True
    have "\<forall>i \<in> set [1..n - 2]. 0 \<le> i \<and> i + 1 < int (length s)" by (auto simp: n_def)
    from for_each_pairs[OF i3 this] True show ?thesis by (simp add: st4_def n_def)
  next
    case False
    then have "[1..n - 2] = []" by simp
    then show ?thesis using False by (simp add: act_ret_def st4_def tally_def pairs_at_def n_def)
  qed
  have g: "st4 = evidence_a st ids"
    using len by (simp add: st4_def st3_def st2_def st1_def evidence_a_def tally_def n_def)
  show ?thesis
    unfolding gen_sentence_constraint_a_def
    using a b c d e f by (simp add: act_bind_def act_ret_def g)
qed

lemma gen_sentence_constraint_b_updates:
  assumes ids: "map (id_table st) s = map Some ids"
  shows "gen_sentence_constraint_b s False st = (Inr None, evidence_b st ids)"
proof -
  have len: "length ids = length s" using ids by (metis length_map)
  define n where "n = int (length s)"
  define st1 where "st1 = st\<lparr>alphabet_to_snk_imply_table :=
      tally (alphabet_to_snk_imply_table st)
        (if 1 < length ids then pairs_at ids [n - 2] else [])\<rparr>"
  define st2 where "st2 = st1\<lparr>alphabet1_to_alphabet_imply_table :=
      tally (alphabet1_to_alphabet_imply_table st1)
        (if 2 < length ids then triples_at ids [0] else [])\<rparr>"
  define st3 where "st3 = st2\<lparr>alphabet_to_alphabet_imply_table :=
      tally (alphabet_to_alphabet_imply_table st2) (triples_at ids [1..n - 3])\<rparr>"
  have i1: "map (id_table st1) s = map Some ids" using ids by (simp add: st1_def)
  have i2: "map (id_table st2) s = map Some ids" using ids by (simp add: st1_def st2_def)
  have a: "(if int (length s) > 1 then
              act_bind (read_id s (- 2)) (\<lambda>id1.
              act_bind (read_id s (- 1)) (\<lambda>id2.
              count_alphabet_to_snk_imply (id1, id2)))
            else act_ret ()) st = (Inr (), st1)"
  proof (cases "1 < n")
    case True
    have "read_id s (- 2) st = (Inr (ids ! nat (n - 2)), st)"
      using read_id_from_end[OF ids, of "- 2"] True by (simp add: n_def)
    moreover have "nat (n - 2 + 1) = nat (n + - 1)" using True by simp
    then have "read_id s (- 1) st = (Inr (ids ! nat (n - 2 + 1)), st)"
      using read_id_from_end[OF ids, of "- 1"] True by (simp add: n_def)
    ultimately show ?thesis
      using True len
      by (simp add: act_bind_def count_alphabet_to_snk_imply_def st1_def tally_def pairs_at_def
          n_def)
  next
    case False
    then show ?thesis using len by (simp add: act_ret_def st1_def tally_def n_def)
  qed
  have b: "(if int (length s) > 2 then
              act_bind (read_id s 0) (\<lambda>id1.
              act_bind (read_id s 1) (\<lambda>id2.
              act_bind (read_id s 2) (\<lambda>id3.
              act_bind (count_alphabet1_to_alphabet_imply (id1, id2, id3)) (\<lambda>_.
              for_each [1..int (length s) - 3] (\<lambda>i.
                act_bind (read_id s i) (\<lambda>id1.
                act_bind (read_id s (i + 1)) (\<lambda>id2.
                act_bind (read_id s (i + 2)) (\<lambda>id3.
                count_alphabet_to_alphabet_imply (id1, id2, id3)))))))))
            else act_ret ()) st1 = (Inr (), st3)"
  proof (cases "2 < n")
    case True
    have "s \<noteq> []" using True by (auto simp: n_def)
    then have r0: "read_id s 0 st1 = (Inr (ids ! 0), st1)"
      using read_id_at[OF i1, of 0] by simp
    have r1: "read_id s 1 st1 = (Inr (ids ! 1), st1)"
      using read_id_at[OF i1, of 1] True by (simp add: n_def)
    have r2: "read_id s 2 st1 = (Inr (ids ! 2), st1)"
      using read_id_at[OF i1, of 2] True by (simp add: n_def)
    have c: "count_alphabet1_to_alphabet_imply (ids ! 0, ids ! 1, ids ! 2) st1 = (Inr (), st2)"
      using True len
      by (simp add: count_alphabet1_to_alphabet_imply_def st2_def tally_def triples_at_def n_def)
    have "\<forall>i \<in> set [1..n - 3]. 0 \<le> i \<and> i + 2 < int (length s)" by (auto simp: n_def)
    from for_each_triples[OF i2 this]
    have l: "for_each [1..int (length s) - 3] (\<lambda>i.
                act_bind (read_id s i) (\<lambda>id1.
                act_bind (read_id s (i + 1)) (\<lambda>id2.
                act_bind (read_id s (i + 2)) (\<lambda>id3.
                count_alphabet_to_alphabet_imply (id1, id2, id3))))) st2 = (Inr (), st3)"
      by (simp add: st3_def n_def)
    show ?thesis
      using True r0 r1 r2 c l by (simp add: act_bind_def n_def)
  next
    case False
    then have "[1..n - 3] = []" by simp
    then show ?thesis
      using False len
      by (simp add: act_ret_def st3_def st2_def tally_def triples_at_def n_def)
  qed
  have g: "st3 = evidence_b st ids"
    using len by (simp add: st3_def st2_def st1_def evidence_b_def n_def)
  show ?thesis
    unfolding gen_sentence_constraint_b_def
    using a b by (simp add: act_bind_def act_ret_def g)
qed

lemma py_get_head: "py_get (x # xs) 0 = Inr x"
  by (simp add: py_get_def)

lemma true_sentinel:
  assumes "var_list st = var_list (global_init (alphabet st) (k st))"
  shows "py_get (var_list st) 0 = Inr (BoolVal True)"
  unfolding assms var_list_global_init by (rule py_get_head)

lemma evidence_a_fields [simp]:
  "alphabet (evidence_a st ids) = alphabet st"
  "k (evidence_a st ids) = k st"
  "var_list (evidence_a st ids) = var_list st"
  "id_table (evidence_a st ids) = id_table st"
  by (simp_all add: evidence_a_def)

lemma evidence_b_fields [simp]:
  "alphabet (evidence_b st ids) = alphabet st"
  "k (evidence_b st ids) = k st"
  "var_list (evidence_b st ids) = var_list st"
  "id_table (evidence_b st ids) = id_table st"
  by (simp_all add: evidence_b_def)

lemma evidence_fields [simp]:
  "alphabet (evidence st ids) = alphabet st"
  "k (evidence st ids) = k st"
  "var_list (evidence st ids) = var_list st"
  "id_table (evidence st ids) = id_table st"
  by (simp_all add: evidence_def Let_def)

lemma gen_sentence_constraint_updates:
  assumes ids: "map (id_table st) s = map Some ids"
    and vl: "var_list st = var_list (global_init (alphabet st) (k st))"
  shows "gen_sentence_constraint s False st = (Inr None, evidence st ids)"
proof -
  define st1 where "st1 = (if ids = [] then st else evidence_a st ids)"
  have e: "ids = [] \<longleftrightarrow> s = []" using ids by (metis map_is_Nil_conv)
  have t: "py_get (var_list st) 0 = Inr (BoolVal True)" by (rule true_sentinel[OF vl])
  have a: "(if int (length s) = 0
            then act_read (\<lambda>st. bind_err (py_get (var_list st) 0) (\<lambda>f. Inr (Some f)))
            else gen_sentence_constraint_a s False) st = (Inr (if s = [] then Some (BoolVal True) else None), st1)"
  proof (cases "s = []")
    case True
    then show ?thesis using t e by (simp add: act_read_def bind_err_def st1_def)
  next
    case False
    then show ?thesis
      using gen_sentence_constraint_a_updates[OF ids False] e by (simp add: st1_def)
  qed
  have f1: "k st1 = k st" "var_list st1 = var_list st" "id_table st1 = id_table st"
    by (simp_all add: st1_def)
  have b: "(if k st1 \<le> 1
            then act_read (\<lambda>st. bind_err (py_get (var_list st) 0) (\<lambda>f. Inr (Some f)))
            else gen_sentence_constraint_b s False) st1
           = (Inr (if k st \<le> 1 then Some (BoolVal True) else None), evidence st ids)"
  proof (cases "k st \<le> 1")
    case True
    then show ?thesis
      using t f1 by (simp add: act_read_def bind_err_def evidence_def Let_def st1_def)
  next
    case False
    have "map (id_table st1) s = map Some ids" using ids f1 by simp
    from gen_sentence_constraint_b_updates[OF this] False f1 show ?thesis
      by (simp add: evidence_def Let_def st1_def)
  qed
  show ?thesis
    unfolding gen_sentence_constraint_def
    using a b by (simp add: act_bind_def act_ret_def)
qed

lemma observed_evidence_twice:
  assumes "counts_nonneg st"
  shows "observed (src_to_alphabet1_table (evidence (evidence st ids) ids))
           = observed (src_to_alphabet1_table (evidence st ids))"
    and "observed (alphabet1_to_alphabet_table (evidence (evidence st ids) ids))
           = observed (alphabet1_to_alphabet_table (evidence st ids))"
    and "observed (alphabet_to_alphabet_table (evidence (evidence st ids) ids))
           = observed (alphabet_to_alphabet_table (evidence st ids))"
    and "observed (alphabet_to_snk_table (evidence (evidence st ids) ids))
           = observed (alphabet_to_snk_table (evidence st ids))"
    and "observed (alphabet1_to_alphabet_imply_table (evidence (evidence st ids) ids))
           = observed (alphabet1_to_alphabet_imply_table (evidence st ids))"
    and "observed (alphabet_to_alphabet_imply_table (evidence (evidence st ids) ids))
           = observed (alphabet_to_alphabet_imply_table (evidence st ids))"
    and "observed (alphabet_to_snk_imply_table (evidence (evidence st ids) ids))
           = observed (alphabet_to_snk_imply_table (evidence st ids))"
  using assms
  by (simp_all add: counts_nonneg_def evidence_def evidence_a_def evidence_b_def Let_def
      observed_tally_twice)

text \<open>What the formula builders read of the class state.\<close>

lemma quadruple_to_idx_cong:
  assumes "alphabet st = alphabet st'" and "k st = k st'"
  shows "quadruple_to_idx st = quadruple_to_idx st'"
  by (intro ext) (simp add: quadruple_to_idx_def get_size_def get_number_def Let_def assms)

lemma index_lists_cong:
  assumes "alphabet st = alphabet st'" and "k st = k st'"
  shows "get_alphabet_to_alphabet_list st = get_alphabet_to_alphabet_list st'"
    and "get_alphabet_to_alphabet_imply_list st = get_alphabet_to_alphabet_imply_list st'"
  by (intro ext, simp add: get_alphabet_to_alphabet_list_def
      get_alphabet_to_alphabet_imply_list_def quadruple_to_idx_cong[OF assms] get_size_def assms)+

lemma variable_formulas_cong:
  assumes "var_list st = var_list st'"
  shows "get_and_formula st = get_and_formula st'"
    and "get_or_formula st = get_or_formula st'"
    and "imply_formula st = imply_formula st'"
proof -
  show a: "get_and_formula st = get_and_formula st'"
    by (intro ext) (simp add: get_and_formula_def assms)
  show o: "get_or_formula st = get_or_formula st'"
    by (intro ext) (simp add: get_or_formula_def assms)
  show "imply_formula st = imply_formula st'"
    by (intro ext) (simp add: imply_formula_def o)
qed

lemma generate_global_constraint_cong:
  assumes "alphabet st = alphabet st'" and "k st = k st'" and "var_list st = var_list st'"
    and "observed (src_to_alphabet1_table st) = observed (src_to_alphabet1_table st')"
    and "observed (alphabet1_to_alphabet_table st) = observed (alphabet1_to_alphabet_table st')"
    and "observed (alphabet_to_alphabet_table st) = observed (alphabet_to_alphabet_table st')"
    and "observed (alphabet_to_snk_table st) = observed (alphabet_to_snk_table st')"
    and "observed (alphabet1_to_alphabet_imply_table st)
           = observed (alphabet1_to_alphabet_imply_table st')"
    and "observed (alphabet_to_alphabet_imply_table st)
           = observed (alphabet_to_alphabet_imply_table st')"
    and "observed (alphabet_to_snk_imply_table st) = observed (alphabet_to_snk_imply_table st')"
  shows "generate_global_constraint st = generate_global_constraint st'"
proof -
  have a: "generate_global_constraint_a st = generate_global_constraint_a st'"
    unfolding generate_global_constraint_a_def
    by (simp only: index_lists_cong[OF assms(1,2)] variable_formulas_cong[OF assms(3)]
        assms(4-7) get_size_def assms(1))
  have b: "generate_global_constraint_b st = generate_global_constraint_b st'"
    unfolding generate_global_constraint_b_def
    by (simp only: index_lists_cong[OF assms(1,2)] variable_formulas_cong[OF assms(3)]
        assms(8-10) get_size_def assms(1))
  show ?thesis
    unfolding generate_global_constraint_def by (simp only: a b assms(3))
qed


section \<open>Properties of the constraints\<close>

text \<open>
  C8. With \<open>k = 1\<close>, for any alphabet, the determinism formula is the entry 0 of the
  variable list, the constant true: it holds under every assignment.
\<close>

theorem deterministic_formula_k1:
  assumes "k st = 1" and "var_list st = var_list (global_init (alphabet st) (k st))"
  shows "\<exists>f. gen_deterministic_formula st = Inr f \<and> py_get (var_list st) 0 = Inr f
             \<and> (\<forall>\<sigma>. eval \<sigma> f)"
  using assms(1) true_sentinel[OF assms(2)] by (simp add: gen_deterministic_formula_def)

theorem deterministic_formula_k1_witness:
  "k (global_init [''a'', ''b''] 1) = 1
   \<and> gen_deterministic_formula (global_init [''a'', ''b''] 1) = Inr (BoolVal True)"
proof -
  have h: "k (global_init [''a'', ''b''] 1) = 1"
    "var_list (global_init [''a'', ''b''] 1)
       = var_list (global_init (alphabet (global_init [''a'', ''b''] 1))
                               (k (global_init [''a'', ''b''] 1)))"
    by (simp_all add: global_init_def gen_var_list_def gen_id_table_def class_state_def Let_def)
  show ?thesis
    using h(1) deterministic_formula_k1 [OF h] true_sentinel [OF h(2)] by auto
qed


text \<open>
  C10. Building the standalone formula of a sentence (\<open>ext\<close> set) leaves the whole class
  state as it was, the seven tables, the id table, the variable list and the configuration,
  for every sentence and also when the call raises; aggregation (\<open>ext\<close> not set) is what
  changes a table, as on the sentence \<open>a\<close>.
\<close>

theorem standalone_formula_preserves_state:
  "snd (gen_sentence_constraint sentence True st) = st
   \<and> src_to_alphabet1_table (global_init [''a''] 1) = []
   \<and> src_to_alphabet1_table (snd (gen_sentence_constraint [''a''] False (global_init [''a''] 1)))
       = [(1, 1)]"
proof (intro conjI)
  show "snd (gen_sentence_constraint sentence True st) = st"
    by (simp add: gen_sentence_constraint_def gen_sentence_constraint_a_def
        gen_sentence_constraint_b_def act_bind_def act_read_def act_ret_def
        split: sum.splits option.splits prod.splits)
  show "src_to_alphabet1_table (global_init [''a''] 1) = []"
    by code_simp
  show "src_to_alphabet1_table (snd (gen_sentence_constraint [''a''] False (global_init [''a''] 1)))
       = [(1, 1)]"
    by code_simp
qed

text \<open>
  C6. Aggregating a sentence over the alphabet a second time changes counters only: from
  tables without negative counters, both calls return and the global constraint after the
  second call is the same formula as after the first.
\<close>

theorem aggregation_idempotent:
  assumes "counts_nonneg st"
    and "var_list st = var_list (global_init (alphabet st) (k st))"
    and "map (id_table st) s = map Some ids"
  shows "fst (gen_sentence_constraint s False st) = Inr None
       \<and> fst (gen_sentence_constraint s False (snd (gen_sentence_constraint s False st)))
           = Inr None
       \<and> generate_global_constraint
           (snd (gen_sentence_constraint s False (snd (gen_sentence_constraint s False st))))
         = generate_global_constraint (snd (gen_sentence_constraint s False st))"
proof -
  define st1 where "st1 = evidence st ids"
  have once: "gen_sentence_constraint s False st = (Inr None, st1)"
    unfolding st1_def by (rule gen_sentence_constraint_updates[OF assms(3,2)])
  have "var_list st1 = var_list (global_init (alphabet st1) (k st1))"
    using assms(2) by (simp add: st1_def)
  moreover have "map (id_table st1) s = map Some ids" using assms(3) by (simp add: st1_def)
  ultimately have twice: "gen_sentence_constraint s False st1 = (Inr None, evidence st1 ids)"
    by (intro gen_sentence_constraint_updates)
  have "generate_global_constraint (evidence st1 ids) = generate_global_constraint st1"
    unfolding st1_def
    by (intro generate_global_constraint_cong observed_evidence_twice[OF assms(1)]) simp_all
  then show ?thesis by (simp add: once twice)
qed


theorem aggregation_idempotent_witness:
  "counts_nonneg (global_init [''a'', ''b''] 2)
   \<and> map (id_table (global_init [''a'', ''b''] 2)) [''a'', ''b'', ''b''] = map Some [1, 2, 2]
   \<and> generate_global_constraint
         (snd (gen_sentence_constraint [''a'', ''b'', ''b''] False
            (snd (gen_sentence_constraint [''a'', ''b'', ''b''] False
               (global_init [''a'', ''b''] 2)))))
       = generate_global_constraint
           (snd (gen_sentence_constraint [''a'', ''b'', ''b''] False
              (global_init [''a'', ''b''] 2)))"
proof -
  have h: "counts_nonneg (global_init [''a'', ''b''] 2)"
    "var_list (global_init [''a'', ''b''] 2)
       = var_list (global_init (alphabet (global_init [''a'', ''b''] 2))
                               (k (global_init [''a'', ''b''] 2)))"
    "map (id_table (global_init [''a'', ''b''] 2)) [''a'', ''b'', ''b''] = map Some [1, 2, 2]"
    by (simp_all add: counts_nonneg_def global_init_def gen_var_list_def gen_id_table_def
        class_state_def Let_def)
  show ?thesis
    using h(1,3) aggregation_idempotent [OF h] by simp
qed

text \<open>
  C4, as the code has it. With \<open>k \<ge> 2\<close>, aggregating a sentence over the alphabet records
  its first triple in the first-triple table and every later consecutive triple in the
  interior-triple table when it has more than two symbols, and its last pair in the
  pair-before-snk table when it has more than one.
\<close>

theorem transitivity_evidence_recorded:
  assumes "1 < k st" and "counts_nonneg st"
    and "var_list st = var_list (global_init (alphabet st) (k st))"
    and "map (id_table st) s = map Some ids"
  shows "fst (gen_sentence_constraint s False st) = Inr None
       \<and> (2 < length s \<longrightarrow>
            (ids ! 0, ids ! 1, ids ! 2)
              \<in> set (observed (alphabet1_to_alphabet_imply_table
                                (snd (gen_sentence_constraint s False st))))
            \<and> (\<forall>i \<in> {1..length s - 3}.
                 (ids ! i, ids ! (i + 1), ids ! (i + 2))
                   \<in> set (observed (alphabet_to_alphabet_imply_table
                                     (snd (gen_sentence_constraint s False st))))))
       \<and> (1 < length s \<longrightarrow>
            (ids ! (length s - 2), ids ! (length s - 1))
              \<in> set (observed (alphabet_to_snk_imply_table
                                (snd (gen_sentence_constraint s False st)))))"
proof -
  have len: "length ids = length s" using assms(4) by (metis length_map)
  have run: "gen_sentence_constraint s False st = (Inr None, evidence st ids)"
    by (rule gen_sentence_constraint_updates[OF assms(4,3)])
  have nn: "list_all (\<lambda>kv. 0 \<le> snd kv) (alphabet1_to_alphabet_imply_table st)"
    "list_all (\<lambda>kv. 0 \<le> snd kv) (alphabet_to_alphabet_imply_table st)"
    "list_all (\<lambda>kv. 0 \<le> snd kv) (alphabet_to_snk_imply_table st)"
    using assms(2) by (simp_all add: counts_nonneg_def)
  have first: "(ids ! 0, ids ! 1, ids ! 2)
                 \<in> set (observed (alphabet1_to_alphabet_imply_table (evidence st ids)))"
    if "2 < length s"
  proof -
    have "alphabet1_to_alphabet_imply_table (evidence st ids)
            = tally (alphabet1_to_alphabet_imply_table st) (triples_at ids [0])"
      using that assms(1) len
      by (auto simp: evidence_def evidence_a_def evidence_b_def Let_def)
    moreover have "(ids ! 0, ids ! 1, ids ! 2) \<in> set (triples_at ids [0])"
      by (simp add: triples_at_def)
    ultimately show ?thesis using observed_tally_member[OF nn(1)] by simp
  qed
  have inner: "(ids ! i, ids ! (i + 1), ids ! (i + 2))
                 \<in> set (observed (alphabet_to_alphabet_imply_table (evidence st ids)))"
    if "2 < length s" and "i \<in> {1..length s - 3}" for i
  proof -
    have "alphabet_to_alphabet_imply_table (evidence st ids)
            = tally (alphabet_to_alphabet_imply_table st)
                (triples_at ids [1..int (length ids) - 3])"
      using that assms(1) len
      by (auto simp: evidence_def evidence_a_def evidence_b_def Let_def)
    moreover have "(ids ! i, ids ! (i + 1), ids ! (i + 2))
                 \<in> set (triples_at ids [1..int (length ids) - 3])"
    proof -
      have m: "int i \<in> set [1..int (length ids) - 3]" using that len by auto
      have "(ids ! i, ids ! (i + 1), ids ! (i + 2))
              = (\<lambda>j. (ids ! nat j, ids ! nat (j + 1), ids ! nat (j + 2))) (int i)"
        by (simp add: nat_add_distrib)
      also have "\<dots> \<in> (\<lambda>j. (ids ! nat j, ids ! nat (j + 1), ids ! nat (j + 2)))
                         ` set [1..int (length ids) - 3]"
        using m by (rule imageI)
      finally show ?thesis by (simp only: triples_at_def set_map)
    qed
    ultimately show ?thesis using observed_tally_member[OF nn(2)] by simp
  qed
  have last: "(ids ! (length s - 2), ids ! (length s - 1))
                \<in> set (observed (alphabet_to_snk_imply_table (evidence st ids)))"
    if "1 < length s"
  proof -
    have "alphabet_to_snk_imply_table (evidence st ids)
            = tally (alphabet_to_snk_imply_table st) (pairs_at ids [int (length ids) - 2])"
      using that assms(1) len
      by (auto simp: evidence_def evidence_a_def evidence_b_def Let_def)
    moreover have "nat (int (length s) - 2) = length s - 2"
      "nat (int (length s) - 2 + 1) = length s - 1" using that by simp_all
    then have "(ids ! (length s - 2), ids ! (length s - 1))
                 \<in> set (pairs_at ids [int (length ids) - 2])"
      by (simp add: pairs_at_def len)
    ultimately show ?thesis using observed_tally_member[OF nn(3)] by simp
  qed
  show ?thesis using first inner last by (simp add: run)
qed

theorem transitivity_evidence_recorded_witness:
  "1 < k (global_init [''a'', ''b''] 2) \<and> counts_nonneg (global_init [''a'', ''b''] 2)
   \<and> map (id_table (global_init [''a'', ''b''] 2)) [''a'', ''b'', ''a'', ''b'']
       = map Some [1, 2, 1, 2]
   \<and> (1, 2, 1) \<in> set (observed (alphabet1_to_alphabet_imply_table
         (snd (gen_sentence_constraint [''a'', ''b'', ''a'', ''b''] False
                (global_init [''a'', ''b''] 2)))))
   \<and> (2, 1, 2) \<in> set (observed (alphabet_to_alphabet_imply_table
         (snd (gen_sentence_constraint [''a'', ''b'', ''a'', ''b''] False
                (global_init [''a'', ''b''] 2)))))
   \<and> (1, 2) \<in> set (observed (alphabet_to_snk_imply_table
         (snd (gen_sentence_constraint [''a'', ''b'', ''a'', ''b''] False
                (global_init [''a'', ''b''] 2)))))"
proof -
  have h: "1 < k (global_init [''a'', ''b''] 2)" "counts_nonneg (global_init [''a'', ''b''] 2)"
    "var_list (global_init [''a'', ''b''] 2)
       = var_list (global_init (alphabet (global_init [''a'', ''b''] 2))
                               (k (global_init [''a'', ''b''] 2)))"
    "map (id_table (global_init [''a'', ''b''] 2)) [''a'', ''b'', ''a'', ''b'']
       = map Some [1, 2, 1, 2]"
    by (simp_all add: counts_nonneg_def global_init_def gen_var_list_def gen_id_table_def
        class_state_def Let_def)
  show ?thesis
    using h(1,2,4) transitivity_evidence_recorded [OF h] by simp
qed

text \<open>
  C4 as stated fails for \<open>k = 1\<close>: the method skips the transitivity part when
  \<open>k \<le> 1\<close>, and the three transitivity tables stay empty.
\<close>

theorem transitivity_tables_untouched_k1:
  "k (global_init [''a'', ''b''] 1) = 1
   \<and> fst (gen_sentence_constraint [''a'', ''b'', ''a''] False (global_init [''a'', ''b''] 1))
       = Inr None
   \<and> alphabet1_to_alphabet_imply_table
         (snd (gen_sentence_constraint [''a'', ''b'', ''a''] False (global_init [''a'', ''b''] 1)))
       = []
   \<and> alphabet_to_alphabet_imply_table
         (snd (gen_sentence_constraint [''a'', ''b'', ''a'', ''b''] False
                (global_init [''a'', ''b''] 1)))
       = []
   \<and> alphabet_to_snk_imply_table
         (snd (gen_sentence_constraint [''a'', ''b'', ''a''] False (global_init [''a'', ''b''] 1)))
       = []"
  by code_simp

text \<open>
  C1 at the alphabet \<open>a\<close> with \<open>k = 2\<close> and the single positive sample \<open>a\<close>. The
  standalone part a asks for the edge from slot 1 of \<open>a\<close> to \<open>snk\<close> (variable 6); part A
  of the global constraint asks for an edge from any slot (variable 6 or 9). The assignment
  that makes only variable 6 false satisfies the second and not the first.
\<close>

theorem aggregated_part_a_weaker_on_single_symbol:
  "fst (gen_sentence_constraint [''a''] False (global_init [''a''] 2)) = Inr None
   \<and> generate_global_constraint_a
         (snd (gen_sentence_constraint [''a''] False (global_init [''a''] 2)))
       = Inr [And [BoolVar 1], Or [BoolVar 6, BoolVar 9]]
   \<and> fst (gen_sentence_constraint_a [''a''] True (global_init [''a''] 2))
       = Inr (Some (And [BoolVar 1, BoolVar 6]))
   \<and> eval (all_but 6) (And [And [BoolVar 1], Or [BoolVar 6, BoolVar 9]])
   \<and> \<not> eval (all_but 6) (And [BoolVar 1, BoolVar 6])"
  by code_simp

text \<open>
  For every alphabet size other than 2 the pair-before-snk branch pairs, for each middle
  slot, the edges from all slots of the first symbol with the one edge to \<open>snk\<close>.
\<close>

lemma snk_imply_list_any_slot:
  assumes "get_size st \<noteq> 2"
  shows "get_alphabet_to_alphabet_imply_list st id1 id2 (get_size st + 1) False
         = map (\<lambda>k2. (map (\<lambda>k1. quadruple_to_idx st id1 k1 id2 k2) [1..k st],
                       [quadruple_to_idx st id2 k2 (get_size st + 1) 0])) [1..k st]"
  using assms by (simp add: get_alphabet_to_alphabet_imply_list_def)

text \<open>
  C5 at the alphabet \<open>a, b\<close> with \<open>k = 2\<close> after the positive sample \<open>a a\<close>. The pair
  \<open>(1, 1)\<close> is in the pair-before-snk table, and for each middle slot the antecedent that is
  emitted holds the one variable of slot 1 of the first symbol (6, then 7), not the
  disjunction over both slots (6 or 11, then 7 or 12).
\<close>

theorem snk_imply_antecedent_two_symbols:
  "fst (gen_sentence_constraint [''a'', ''a''] False (global_init [''a'', ''b''] 2)) = Inr None
   \<and> alphabet_to_snk_imply_table
        (snd (gen_sentence_constraint [''a'', ''a''] False (global_init [''a'', ''b''] 2)))
       = [((1, 1), 1)]
   \<and> generate_global_constraint_b
        (snd (gen_sentence_constraint [''a'', ''a''] False (global_init [''a'', ''b''] 2)))
       = Inr [Implies (Or [BoolVar 6]) (Or [BoolVar 10]),
              Implies (Or [BoolVar 7]) (Or [BoolVar 15])]
   \<and> quadruple_to_idx (global_init [''a'', ''b''] 2) 1 1 1 1 = 6
   \<and> quadruple_to_idx (global_init [''a'', ''b''] 2) 1 2 1 1 = 11
   \<and> quadruple_to_idx (global_init [''a'', ''b''] 2) 1 1 1 2 = 7
   \<and> quadruple_to_idx (global_init [''a'', ''b''] 2) 1 2 1 2 = 12"
  by code_simp

end
